theory Spec2Isabelle
  imports Complex_Main
begin

section \<open>Python values and errors\<close>

text \<open>
  The exceptions that the modelled parts of \<^verbatim>\<open>data.py\<close> and \<^verbatim>\<open>main.py\<close> can raise.
  \<open>RuntimeError_not_opened\<close> is the bare \<^verbatim>\<open>raise RuntimeError\<close> of line 198 of
  \<^verbatim>\<open>data.py\<close>; \<open>RuntimeError_too_short n m\<close> is the \<^verbatim>\<open>RuntimeError\<close> of line 211, whose
  message carries the sequence length \<open>n\<close> and the required length \<open>m\<close> (the specification
  calls it \<^verbatim>\<open>SequenceTooShort\<close>). \<open>ValueError\<close> is raised by \<^verbatim>\<open>np.random.randint\<close> on an
  empty range and by \<^verbatim>\<open>torch.tensor\<close> on a ragged nested list; \<open>RuntimeError_overflow\<close> is
  the \<^verbatim>\<open>RuntimeError\<close> of \<^verbatim>\<open>torch.tensor\<close> on an integer outside the 64-bit range.
\<close>

datatype py_error =
    RuntimeError_not_opened
  | RuntimeError_too_short int int
  | ValueError
  | IndexError
  | ZeroDivisionError
  | AttributeError
  | ImageError
  | RuntimeError_overflow

text \<open>
  Python slicing \<^verbatim>\<open>xs[lo:hi]\<close> with integer bounds: a negative bound counts from the end,
  every bound is clipped to the list, and an empty range gives the empty list.
\<close>

definition slice_index :: "nat \<Rightarrow> int \<Rightarrow> nat" where
  "slice_index n i = (if i < 0 then nat (max 0 (int n + i)) else min n (nat i))"

definition py_slice :: "'a list \<Rightarrow> int \<Rightarrow> int \<Rightarrow> 'a list" where
  "py_slice xs lo hi =
     (let a = slice_index (length xs) lo; b = slice_index (length xs) hi
      in take (b - a) (drop a xs))"

section \<open>The window sampler of Comma2k19SequenceDataset\<close>

text \<open>
  \<^verbatim>\<open>np.random.randint(low, high)\<close> draws an integer of the half-open range \<open>[low, high)\<close> and
  raises \<^verbatim>\<open>ValueError\<close> when \<open>low \<ge> high\<close>. The random source is explicit: \<open>r\<close> is the raw
  draw of the generator, reduced into the range.
\<close>

definition randint :: "int \<Rightarrow> int \<Rightarrow> nat \<Rightarrow> py_error + int" where
  "randint low high r =
     (if low \<ge> high then Inl ValueError else Inr (low + int r mod (high - low)))"

text \<open>
  Lines 208 to 218 of \<^verbatim>\<open>data.py\<close>: the guard on the sequence length, the random offset and
  the two indices \<^verbatim>\<open>seq_start_idx\<close> and \<^verbatim>\<open>seq_end_idx\<close>.
\<close>

definition sample_window :: "int \<Rightarrow> int \<Rightarrow> int \<Rightarrow> nat \<Rightarrow> py_error + (int \<times> int)" where
  "sample_window seq_length fix_seq_length num_pts r =
     (if seq_length < fix_seq_length + num_pts
      then Inl (RuntimeError_too_short seq_length (fix_seq_length + num_pts))
      else
        let seq_length_delta = seq_length - (fix_seq_length + num_pts)
        in case randint 1 (seq_length_delta + 1) r of
             Inl e \<Rightarrow> Inl e
           | Inr seq_length_delta' \<Rightarrow>
               Inr (seq_length_delta', seq_length_delta' + fix_seq_length))"

section \<open>The pose localizer of Comma2k19SequenceDataset\<close>

text \<open>
  Positions are rows of a numpy array of shape \<open>(n, 3)\<close>, orientations rows of an array of
  shape \<open>(n, 4)\<close> (a quaternion \<open>(w, x, y, z)\<close>), and a rotation is a \<open>3 \<times> 3\<close> array, given by
  its three rows. The arithmetic of the arrays is taken over the real numbers: the rounding
  of the 64-bit and 32-bit floating-point formats is not part of the model.
\<close>

type_synonym vec3 = "real \<times> real \<times> real"
type_synonym quat = "real \<times> real \<times> real \<times> real"
type_synonym mat3 = "vec3 \<times> vec3 \<times> vec3"

fun vsub :: "vec3 \<Rightarrow> vec3 \<Rightarrow> vec3" where
  "vsub (a1, a2, a3) (b1, b2, b3) = (a1 - b1, a2 - b2, a3 - b3)"

fun vadd :: "vec3 \<Rightarrow> vec3 \<Rightarrow> vec3" where
  "vadd (a1, a2, a3) (b1, b2, b3) = (a1 + b1, a2 + b2, a3 + b3)"

fun dot :: "vec3 \<Rightarrow> vec3 \<Rightarrow> real" where
  "dot (a1, a2, a3) (b1, b2, b3) = a1 * b1 + a2 * b2 + a3 * b3"

fun mat_vec :: "mat3 \<Rightarrow> vec3 \<Rightarrow> vec3" where
  "mat_vec (r0, r1, r2) v = (dot r0 v, dot r1 v, dot r2 v)"

text \<open>The attribute \<^verbatim>\<open>.T\<close> of a two-dimensional array.\<close>

fun transpose_mat :: "mat3 \<Rightarrow> mat3" where
  "transpose_mat ((a00, a01, a02), (a10, a11, a12), (a20, a21, a22)) =
     ((a00, a10, a20), (a01, a11, a21), (a02, a12, a22))"

fun mat_mul :: "mat3 \<Rightarrow> mat3 \<Rightarrow> mat3" where
  "mat_mul (r0, r1, r2) B =
     (let bt = transpose_mat B in (mat_vec bt r0, mat_vec bt r1, mat_vec bt r2))"

text \<open>
  Modelled from the spec: \<^verbatim>\<open>orient.rot_from_quat\<close> lives in \<^verbatim>\<open>utils_comma2k19/orientation.py\<close>,
  which is not among the source files at hand. The specification (section 4.1) describes it
  as the standard quaternion-to-rotation-matrix formula with no normalization correction;
  this is that formula for a quaternion \<open>(w, x, y, z)\<close>, in its homogeneous form.
\<close>

fun rot_from_quat :: "quat \<Rightarrow> mat3" where
  "rot_from_quat (w, x, y, z) =
     ((w * w + x * x - y * y - z * z, 2 * (x * y - w * z), 2 * (w * y + x * z)),
      (2 * (x * y + w * z), w * w - x * x + y * y - z * z, 2 * (y * z - w * x)),
      (2 * (x * z - w * y), 2 * (w * x + y * z), w * w - x * x - y * y + z * z))"

text \<open>
  \<^verbatim>\<open>np.einsum('ij,kj->ki', A, B)\<close>: entry \<open>(k, i)\<close> of the result is the sum over \<open>j\<close> of
  \<open>A[i][j] * B[k][j]\<close>, so row \<open>k\<close> of the result is \<open>A\<close> applied to row \<open>k\<close> of \<open>B\<close>.
\<close>

fun einsum_ij_kj_ki :: "mat3 \<Rightarrow> vec3 list \<Rightarrow> vec3 list" where
  "einsum_ij_kj_ki (r0, r1, r2) B = map (\<lambda>b. (dot r0 b, dot r1 b, dot r2 b)) B"

text \<open>
  The body of the loop of lines 234 to 239 of \<^verbatim>\<open>data.py\<close> for the anchor \<open>i\<close>. Indexing an
  array beyond its end raises \<^verbatim>\<open>IndexError\<close>; the slice \<^verbatim>\<open>[i: i+10]\<close> is clipped to the array.
  The subtraction of a row from an array subtracts it from every row. The conversion
  \<^verbatim>\<open>astype(np.float32)\<close> is a rounding, which the model leaves out.
\<close>

definition localize_anchor :: "vec3 list \<Rightarrow> quat list \<Rightarrow> nat \<Rightarrow> py_error + vec3 list" where
  "localize_anchor frame_positions frame_orientations i =
     (if length frame_orientations \<le> i then Inl IndexError
      else
        let ecef_from_local = rot_from_quat (frame_orientations ! i);
            local_from_ecef = transpose_mat ecef_from_local
        in if length frame_positions \<le> i then Inl IndexError
           else
             let frame_positions_local =
                   einsum_ij_kj_ki local_from_ecef
                     (map (\<lambda>p. vsub p (frame_positions ! i)) frame_positions)
             in Inr (py_slice frame_positions_local (int i) (int i + 10)))"

text \<open>The loop itself, over the values of \<^verbatim>\<open>range(self.fix_seq_length)\<close> that remain.\<close>

fun future_poses_loop ::
  "vec3 list \<Rightarrow> quat list \<Rightarrow> nat list \<Rightarrow> vec3 list list \<Rightarrow> py_error + vec3 list list" where
  "future_poses_loop frame_positions frame_orientations [] future_poses = Inr future_poses"
| "future_poses_loop frame_positions frame_orientations (i # rest) future_poses =
     (case localize_anchor frame_positions frame_orientations i of
        Inl e \<Rightarrow> Inl e
      | Inr label \<Rightarrow>
          future_poses_loop frame_positions frame_orientations rest (future_poses @ [label]))"

text \<open>
  \<^verbatim>\<open>torch.tensor\<close> on a nested list: the rows must all have the length of the first one,
  otherwise it raises \<^verbatim>\<open>ValueError\<close>.
\<close>

fun rectangular :: "'a list list \<Rightarrow> bool" where
  "rectangular [] = True"
| "rectangular (r # rs) = list_all (\<lambda>x. length x = length r) rs"

definition torch_tensor :: "'a list list \<Rightarrow> py_error + 'a list list" where
  "torch_tensor rows = (if rectangular rows then Inr rows else Inl ValueError)"

text \<open>Lines 233 to 240: the loop from the empty list, then the conversion to a tensor.\<close>

definition pose_localizer :: "int \<Rightarrow> vec3 list \<Rightarrow> quat list \<Rightarrow> py_error + vec3 list list" where
  "pose_localizer fix_seq_length frame_positions frame_orientations =
     (case future_poses_loop frame_positions frame_orientations [0..<nat fix_seq_length] [] of
        Inl e \<Rightarrow> Inl e
      | Inr future_poses \<Rightarrow> torch_tensor future_poses)"

text \<open>
  The dataset object and \<^verbatim>\<open>__getitem__\<close> (lines 194 to 249), as far as the poses go. The
  video and the two pose files are inputs: \<open>cap_opened\<close> is the result of \<^verbatim>\<open>cap.isOpened()\<close>,
  \<open>n_frames\<close> the number of frames read, and the two lists are the arrays that
  \<^verbatim>\<open>_get_numpy\<close> loads. The image tensors are not modelled.
\<close>

record comma2k19_dataset =
  num_pts :: int
  fix_seq_length :: int

definition Comma2k19SequenceDataset_init :: "int \<Rightarrow> comma2k19_dataset" where
  "Comma2k19SequenceDataset_init n = \<lparr>num_pts = n, fix_seq_length = 40\<rparr>"

definition Comma2k19SequenceDataset_getitem ::
  "comma2k19_dataset \<Rightarrow> bool \<Rightarrow> nat \<Rightarrow> vec3 list \<Rightarrow> quat list \<Rightarrow> nat
     \<Rightarrow> py_error + vec3 list list" where
  "Comma2k19SequenceDataset_getitem self cap_opened n_frames positions_file orientations_file r =
     (if \<not> cap_opened then Inl RuntimeError_not_opened
      else
        case sample_window (int n_frames) (fix_seq_length self) (num_pts self) r of
          Inl e \<Rightarrow> Inl e
        | Inr (seq_start_idx, seq_end_idx) \<Rightarrow>
            let frame_positions =
                  py_slice positions_file seq_start_idx (seq_end_idx + num_pts self);
                frame_orientations =
                  py_slice orientations_file seq_start_idx (seq_end_idx + num_pts self)
            in pose_localizer (fix_seq_length self) frame_positions frame_orientations)"

subsection \<open>Observations and inputs used in the statements\<close>

text \<open>
  The point at offset \<open>k\<close> of the label of anchor \<open>i\<close>, and the number of points of every
  label, of a result of the localizer; \<open>None\<close> when there is no such point or no result.
\<close>

definition label_at :: "py_error + vec3 list list \<Rightarrow> nat \<Rightarrow> nat \<Rightarrow> vec3 option" where
  "label_at res i k =
     (case res of
        Inl e \<Rightarrow> None
      | Inr future_poses \<Rightarrow>
          if i < length future_poses \<and> k < length (future_poses ! i)
          then Some (future_poses ! i ! k) else None)"

definition label_lengths :: "py_error + vec3 list list \<Rightarrow> nat list option" where
  "label_lengths res =
     (case res of Inl e \<Rightarrow> None | Inr future_poses \<Rightarrow> Some (map length future_poses))"

text \<open>
  A drive along the first axis, one unit per frame, and a constant orientation, as example
  inputs. Their values, and those of the quaternion \<open>(1/2, 1/2, 1/2, 1/2)\<close> used with them,
  are exact in binary floating point as well.
\<close>

definition straight_positions :: "nat \<Rightarrow> vec3 list" where
  "straight_positions n = map (\<lambda>j. (real j, 0, 0)) [0..<n]"

definition constant_orientations :: "nat \<Rightarrow> quat \<Rightarrow> quat list" where
  "constant_orientations n q = replicate n q"

text \<open>
  A rigid transform of a whole pose sequence, as claim C7 words it: the rotation is given by
  a unit quaternion \<open>qQ\<close>, every position \<open>p\<close> becomes \<open>Q \<cdot> p + t\<close> with
  \<open>Q = rot_from_quat qQ\<close>, and every orientation \<open>q\<close> becomes the quaternion product of
  \<open>qQ\<close> and \<open>q\<close>, whose rotation matrix is \<open>Q\<close> times that of \<open>q\<close>.
\<close>

fun quat_mul :: "quat \<Rightarrow> quat \<Rightarrow> quat" where
  "quat_mul (a1, b1, c1, d1) (a2, b2, c2, d2) =
     (a1 * a2 - b1 * b2 - c1 * c2 - d1 * d2,
      a1 * b2 + b1 * a2 + c1 * d2 - d1 * c2,
      a1 * c2 - b1 * d2 + c1 * a2 + d1 * b2,
      a1 * d2 + b1 * c2 - c1 * b2 + d1 * a2)"

fun quat_norm2 :: "quat \<Rightarrow> real" where
  "quat_norm2 (w, x, y, z) = w * w + x * x + y * y + z * z"

definition rigid_positions :: "quat \<Rightarrow> vec3 \<Rightarrow> vec3 list \<Rightarrow> vec3 list" where
  "rigid_positions qQ t ps = map (\<lambda>p. vadd (mat_vec (rot_from_quat qQ) p) t) ps"

definition rigid_orientations :: "quat \<Rightarrow> quat list \<Rightarrow> quat list" where
  "rigid_orientations qQ os = map (quat_mul qQ) os"

abbreviation local_point :: "vec3 list \<Rightarrow> quat list \<Rightarrow> nat \<Rightarrow> vec3 \<Rightarrow> vec3" where
  "local_point ps os i p \<equiv> mat_vec (transpose_mat (rot_from_quat (os ! i))) (vsub p (ps ! i))"

section \<open>The training loop of main\<close>

text \<open>
  A loss is a scalar tensor: a finite number or one of the three non-finite values. Sums and
  quotients of finite values are taken over the real numbers. The variable \<^verbatim>\<open>total_loss\<close>
  of \<^verbatim>\<open>main.py\<close> is the Python integer \<open>0\<close> until a tensor is added to it, and the test of
  line 179 tells the two apart.
\<close>

datatype fp = Fin real | PosInf | NegInf | NaN

fun is_finite :: "fp \<Rightarrow> bool" where
  "is_finite (Fin a) = True"
| "is_finite PosInf = False"
| "is_finite NegInf = False"
| "is_finite NaN = False"

fun fp_add :: "fp \<Rightarrow> fp \<Rightarrow> fp" where
  "fp_add (Fin a) (Fin b) = Fin (a + b)"
| "fp_add NaN y = NaN"
| "fp_add x NaN = NaN"
| "fp_add PosInf NegInf = NaN"
| "fp_add NegInf PosInf = NaN"
| "fp_add PosInf y = PosInf"
| "fp_add NegInf y = NegInf"
| "fp_add (Fin a) y = y"

fun fp_div_int :: "fp \<Rightarrow> int \<Rightarrow> fp" where
  "fp_div_int NaN n = NaN"
| "fp_div_int PosInf n = (if 0 \<le> n then PosInf else NegInf)"
| "fp_div_int NegInf n = (if 0 \<le> n then NegInf else PosInf)"
| "fp_div_int (Fin a) n =
     (if n \<noteq> 0 then Fin (a / of_int n)
      else if 0 < a then PosInf else if a < 0 then NegInf else NaN)"

datatype py_loss = PyInt int | Tensor fp

fun py_iadd :: "py_loss \<Rightarrow> fp \<Rightarrow> py_loss" where
  "py_iadd (PyInt n) v = Tensor (fp_add (Fin (of_int n)) v)"
| "py_iadd (Tensor a) v = Tensor (fp_add a v)"

fun isinstance_int :: "py_loss \<Rightarrow> bool" where
  "isinstance_int (PyInt n) = True"
| "isinstance_int (Tensor a) = False"

text \<open>
  The calls that the loop makes on its collaborators are recorded, in order, as events:
  \<^verbatim>\<open>sampler.set_epoch\<close>, \<^verbatim>\<open>hidden.clone().detach()\<close>, \<^verbatim>\<open>optimizer.zero_grad()\<close>,
  \<^verbatim>\<open>total_loss.backward()\<close> with the value of the loss, \<^verbatim>\<open>optimizer.step()\<close>,
  \<^verbatim>\<open>lr_scheduler.step()\<close>, \<^verbatim>\<open>print\<close>, \<^verbatim>\<open>model.validation_step\<close> and \<^verbatim>\<open>cleanup\<close>.
  The calls of the TensorBoard writer are not modelled.
\<close>

datatype event =
    SetEpoch nat
  | Detach
  | ZeroGrad
  | Backward fp
  | OptimizerStep
  | LrSchedulerStep
  | Print string
  | ValidationStep
  | Cleanup

text \<open>
  The collaborators are opaque. \<open>forward_loss\<close> is the forward pass of the model followed by
  the loss: from the weights, the inputs and labels of one step and the hidden state it gives
  the value of \<^verbatim>\<open>cls_loss + args.mtp_alpha * reg_loss.mean()\<close> and the next hidden state.
  \<open>backward_step\<close> is the effect of \<^verbatim>\<open>total_loss.backward()\<close> and \<^verbatim>\<open>optimizer.step()\<close> on the
  weights, from the steps that the loss has been accumulated over; \<open>lr_step\<close> is the effect of
  \<^verbatim>\<open>lr_scheduler.step()\<close>; \<open>zeros\<close> is the initial hidden state. The weights stand for the
  parameters of the model together with the state of the optimizer and of the scheduler.
\<close>

record ('w, 'h, 'x) trainer =
  optimize_per_n_step :: int
  forward_loss :: "'w \<Rightarrow> 'x \<Rightarrow> 'h \<Rightarrow> fp \<times> 'h"
  backward_step :: "'w \<Rightarrow> ('x \<times> 'h) list \<Rightarrow> 'w"
  lr_step :: "'w \<Rightarrow> 'w"
  zeros :: 'h

record ('w, 'h, 'x) train_state =
  weights :: 'w
  hidden :: 'h
  total_loss :: py_loss
  graph :: "('x \<times> 'h) list"
  num_steps :: nat
  events :: "event list"

text \<open>
  Lines 173 to 176 and 180 to 183: \<^verbatim>\<open>zero_grad\<close>, \<^verbatim>\<open>backward\<close>, \<^verbatim>\<open>step\<close>, \<^verbatim>\<open>lr_scheduler.step\<close>.
  An integer has no method \<^verbatim>\<open>backward\<close>.
\<close>

definition optimizer_update ::
  "('w, 'h, 'x) trainer \<Rightarrow> ('w, 'h, 'x) train_state \<Rightarrow> py_error + ('w, 'h, 'x) train_state" where
  "optimizer_update tr s =
     (case total_loss s of
        PyInt n \<Rightarrow> Inl AttributeError
      | Tensor v \<Rightarrow>
          Inr (s\<lparr>weights := lr_step tr (backward_step tr (weights s) (graph s)),
                 events := events s @ [ZeroGrad, Backward v, OptimizerStep, LrSchedulerStep]\<rparr>))"

text \<open>
  Lines 157 to 177, the body of the loop over \<open>t\<close>. Dividing a tensor by the integer \<open>0\<close> does
  not raise, the remainder \<^verbatim>\<open>(t + 1) % 0\<close> of line 171 does.
\<close>

definition train_step ::
  "('w, 'h, 'x) trainer \<Rightarrow> nat \<Rightarrow> 'x \<Rightarrow> ('w, 'h, 'x) train_state
     \<Rightarrow> py_error + ('w, 'h, 'x) train_state" where
  "train_step tr t x s =
     (let s1 = s\<lparr>num_steps := num_steps s + 1\<rparr>;
          (loss_t, hidden') = forward_loss tr (weights s1) x (hidden s1);
          s2 = s1\<lparr>hidden := hidden',
                  graph := graph s1 @ [(x, hidden s1)],
                  total_loss :=
                    py_iadd (total_loss s1) (fp_div_int loss_t (optimize_per_n_step tr))\<rparr>
      in if optimize_per_n_step tr = 0 then Inl ZeroDivisionError
         else if (int t + 1) mod optimize_per_n_step tr = 0 then
           (case optimizer_update tr (s2\<lparr>events := events s2 @ [Detach]\<rparr>) of
              Inl e \<Rightarrow> Inl e
            | Inr s3 \<Rightarrow> Inr (s3\<lparr>total_loss := PyInt 0, graph := []\<rparr>))
         else Inr s2)"

fun train_steps ::
  "('w, 'h, 'x) trainer \<Rightarrow> nat \<Rightarrow> 'x list \<Rightarrow> ('w, 'h, 'x) train_state
     \<Rightarrow> py_error + ('w, 'h, 'x) train_state" where
  "train_steps tr t [] s = Inr s"
| "train_steps tr t (x # xs) s =
     (case train_step tr t x s of
        Inl e \<Rightarrow> Inl e
      | Inr s' \<Rightarrow> train_steps tr (Suc t) xs s')"

text \<open>
  Lines 154 to 183, one window: the hidden state and the accumulator are initialised, the
  steps of the window run, and a last update follows when the accumulator is not an integer.
\<close>

definition train_window ::
  "('w, 'h, 'x) trainer \<Rightarrow> 'x list \<Rightarrow> ('w, 'h, 'x) train_state
     \<Rightarrow> py_error + ('w, 'h, 'x) train_state" where
  "train_window tr seq s =
     (case train_steps tr 0 seq (s\<lparr>hidden := zeros tr, total_loss := PyInt 0, graph := []\<rparr>) of
        Inl e \<Rightarrow> Inl e
      | Inr s' \<Rightarrow>
          if \<not> isinstance_int (total_loss s') then optimizer_update tr s' else Inr s')"

subsection \<open>The loop over the epochs\<close>

text \<open>
  A statement takes a state and says how control leaves it: by falling through to the next
  statement, by a \<^verbatim>\<open>continue\<close>, or by an exception. After a \<^verbatim>\<open>continue\<close> or an exception the
  rest of a sequence is not run; a \<^verbatim>\<open>for\<close> loop goes on to its next item after a
  \<^verbatim>\<open>continue\<close> and stops at an exception.
\<close>

datatype flow = Fallthrough | Continue | Raise py_error

type_synonym ('w, 'h, 'x) stmt =
  "('w, 'h, 'x) train_state \<Rightarrow> flow \<times> ('w, 'h, 'x) train_state"

definition seq_stmt :: "('w, 'h, 'x) stmt \<Rightarrow> ('w, 'h, 'x) stmt \<Rightarrow> ('w, 'h, 'x) stmt" where
  "seq_stmt a b s = (case a s of (Fallthrough, s') \<Rightarrow> b s' | (f, s') \<Rightarrow> (f, s'))"

definition call_stmt :: "event \<Rightarrow> ('w, 'h, 'x) stmt" where
  "call_stmt e s = (Fallthrough, s\<lparr>events := events s @ [e]\<rparr>)"

definition continue_stmt :: "('w, 'h, 'x) stmt" where
  "continue_stmt s = (Continue, s)"

definition if_stmt :: "bool \<Rightarrow> ('w, 'h, 'x) stmt \<Rightarrow> ('w, 'h, 'x) stmt" where
  "if_stmt c a s = (if c then a s else (Fallthrough, s))"

fun for_stmt :: "('a \<Rightarrow> ('w, 'h, 'x) stmt) \<Rightarrow> 'a list \<Rightarrow> ('w, 'h, 'x) stmt" where
  "for_stmt body [] s = (Fallthrough, s)"
| "for_stmt body (x # xs) s =
     (case body x s of
        (Raise e, s') \<Rightarrow> (Raise e, s')
      | (f, s') \<Rightarrow> for_stmt body xs s')"

definition train_batch :: "('w, 'h, 'x) trainer \<Rightarrow> 'x list \<Rightarrow> ('w, 'h, 'x) stmt" where
  "train_batch tr seq s =
     (case train_window tr seq s of Inl e \<Rightarrow> (Raise e, s) | Inr s' \<Rightarrow> (Fallthrough, s'))"

text \<open>
  Lines 147 to 190, one epoch: \<^verbatim>\<open>set_epoch\<close>, the loop over the training batches, and the
  guarded block of lines 185 to 190 with its \<^verbatim>\<open>print\<close>, its \<^verbatim>\<open>continue\<close> and the loop over
  the validation batches. \<open>train_dataloader epoch\<close> is the list of the batches of the
  epoch, each one a window given as the list of its steps.
\<close>

definition epoch_body ::
  "('w, 'h, 'x) trainer \<Rightarrow> (nat \<Rightarrow> 'x list list) \<Rightarrow> 'v list \<Rightarrow> nat \<Rightarrow> ('w, 'h, 'x) stmt" where
  "epoch_body tr train_dataloader val_dataloader epoch =
     seq_stmt (call_stmt (SetEpoch epoch))
       (seq_stmt (for_stmt (train_batch tr) (train_dataloader epoch))
          (if_stmt ((epoch + 1) mod 10 = 0)
             (seq_stmt (call_stmt (Print ''skipping val...''))
                (seq_stmt continue_stmt
                   (for_stmt (\<lambda>data. call_stmt ValidationStep) val_dataloader)))))"

text \<open>
  Lines 144 to 192: the loop over \<^verbatim>\<open>range(args.epochs)\<close>, then \<^verbatim>\<open>cleanup()\<close>, from the
  initial weights \<open>w0\<close> and an empty record of events. The hidden state and the accumulator
  are assigned at the start of every window; their initial values here are never read.
\<close>

definition main_loop ::
  "('w, 'h, 'x) trainer \<Rightarrow> int \<Rightarrow> (nat \<Rightarrow> 'x list list) \<Rightarrow> 'v list \<Rightarrow> 'w
     \<Rightarrow> flow \<times> ('w, 'h, 'x) train_state" where
  "main_loop tr epochs train_dataloader val_dataloader w0 =
     seq_stmt (for_stmt (epoch_body tr train_dataloader val_dataloader) [0..<nat epochs])
       (call_stmt Cleanup)
       \<lparr>weights = w0, hidden = zeros tr, total_loss = PyInt 0, graph = [],
        num_steps = 0, events = []\<rparr>"

subsection \<open>Observations and inputs used in the statements\<close>

text \<open>
  The events that one window adds to the record, the number of calls of \<^verbatim>\<open>optimizer.step()\<close>
  among them, and an event without the value of the loss it carries.
\<close>

definition window_events ::
  "('w, 'h, 'x) trainer \<Rightarrow> 'x list \<Rightarrow> ('w, 'h, 'x) train_state \<Rightarrow> event list option" where
  "window_events tr seq s =
     (case train_window tr seq s of
        Inl e \<Rightarrow> None
      | Inr s' \<Rightarrow> Some (drop (length (events s)) (events s')))"

definition optimizer_steps ::
  "('w, 'h, 'x) trainer \<Rightarrow> 'x list \<Rightarrow> ('w, 'h, 'x) train_state \<Rightarrow> nat option" where
  "optimizer_steps tr seq s =
     map_option (\<lambda>es. count_list es OptimizerStep) (window_events tr seq s)"

fun erase_loss :: "event \<Rightarrow> event" where
  "erase_loss (Backward v) = Backward (Fin 0)"
| "erase_loss e = e"

definition no_validation :: "('w, 'h, 'x) train_state \<Rightarrow> bool" where
  "no_validation s = (ValidationStep \<notin> set (events s))"

text \<open>
  An example trainer: the loss of a step is the value given as the input of the step, the
  hidden state is trivial, and the weights count the updates applied to them.
\<close>

definition replay_trainer :: "int \<Rightarrow> (nat, unit, fp) trainer" where
  "replay_trainer T =
     \<lparr>optimize_per_n_step = T, forward_loss = (\<lambda>w x h. (x, h)),
      backward_step = (\<lambda>w g. Suc w), lr_step = (\<lambda>w. w), zeros = ()\<rparr>"

definition fresh_state :: "(nat, unit, fp) train_state" where
  "fresh_state = \<lparr>weights = 0, hidden = (), total_loss = PyInt 0, graph = [],
        num_steps = 0, events = []\<rparr>"

text \<open>An accumulator that holds a tensor with a non-finite value.\<close>

definition non_finite_acc :: "py_loss \<Rightarrow> bool" where
  "non_finite_acc l = (case l of PyInt n \<Rightarrow> False | Tensor v \<Rightarrow> \<not> is_finite v)"

section \<open>PlanningDataset\<close>

text \<open>
  \<^verbatim>\<open>PlanningDataset.__init__\<close> (lines 22 to 45 of \<^verbatim>\<open>data.py\<close>) and the part of
  \<^verbatim>\<open>__getitem__\<close> (lines 66 to 113) that produces \<^verbatim>\<open>future_poses\<close>. The value of
  \<^verbatim>\<open>sample['future_poses']\<close> is a list of rows of numbers as \<^verbatim>\<open>json.load\<close> gives them: each
  one a Python integer or a Python float, which may be an infinity or NaN.
\<close>

datatype json_num = JInt int | JFloat fp

text \<open>
  A two-dimensional tensor has a dtype. \<^verbatim>\<open>torch.tensor\<close> on a nested list of numbers gives
  an \<^verbatim>\<open>int64\<close> tensor when every number is an integer, and a tensor of the default dtype
  \<^verbatim>\<open>float32\<close> otherwise; a list with no number in it gives an empty \<^verbatim>\<open>float32\<close> tensor. The
  rounding of a number to \<^verbatim>\<open>float32\<close> is the parameter \<open>rnd\<close>; an infinity and NaN stay
  what they are.
\<close>

datatype tensor = Int64 "int list list" | Float32 "fp list list"

fun as_int :: "json_num \<Rightarrow> int option" where
  "as_int (JInt n) = Some n"
| "as_int (JFloat v) = None"

fun as_float32 :: "(real \<Rightarrow> fp) \<Rightarrow> json_num \<Rightarrow> fp" where
  "as_float32 rnd (JInt n) = rnd (of_int n)"
| "as_float32 rnd (JFloat (Fin a)) = rnd a"
| "as_float32 rnd (JFloat v) = v"

definition in_int64 :: "int \<Rightarrow> bool" where
  "in_int64 n = (- (2 ^ 63) \<le> n \<and> n < 2 ^ 63)"

definition torch_tensor_2d :: "(real \<Rightarrow> fp) \<Rightarrow> json_num list list \<Rightarrow> py_error + tensor" where
  "torch_tensor_2d rnd rows =
     (if \<not> rectangular rows then Inl ValueError
      else if \<not> list_all in_int64 (List.map_filter as_int (concat rows))
      then Inl RuntimeError_overflow
      else
        case those (map as_int (concat rows)) of
          Some ns \<Rightarrow>
            if ns = [] then Inr (Float32 (map (map (as_float32 rnd)) rows))
            else Inr (Int64 (map (List.map_filter as_int) rows))
        | None \<Rightarrow> Inr (Float32 (map (map (as_float32 rnd)) rows)))"

text \<open>
  Line 72, \<^verbatim>\<open>future_poses[:, 0] = future_poses[:, 0].clamp(1e-2, )\<close>. On a \<^verbatim>\<open>float32\<close> tensor
  the bound is the \<^verbatim>\<open>float32\<close> value nearest to \<open>0.01\<close>, which is \<open>5368709 / 2 ^ 29\<close>; the clamp
  takes the larger of the entry and the bound, and NaN stays NaN. On an \<^verbatim>\<open>int64\<close> tensor the
  clamped column is written back into the integer tensor, which drops the fractional part
  (the integer entries are taken as exact in the comparison, as they are up to \<open>2 ^ 24\<close>).
\<close>

definition float32_1e_2 :: real where
  "float32_1e_2 = 5368709 / 536870912"

fun clamp_min_float32 :: "fp \<Rightarrow> fp" where
  "clamp_min_float32 (Fin a) = Fin (max a float32_1e_2)"
| "clamp_min_float32 PosInf = PosInf"
| "clamp_min_float32 NegInf = Fin float32_1e_2"
| "clamp_min_float32 NaN = NaN"

definition trunc :: "real \<Rightarrow> int" where
  "trunc a = (if 0 \<le> a then \<lfloor>a\<rfloor> else \<lceil>a\<rceil>)"

definition clamp_min_int64 :: "int \<Rightarrow> int" where
  "clamp_min_int64 n = trunc (max (of_int n) float32_1e_2)"

fun clamp_column_0 :: "tensor \<Rightarrow> tensor" where
  "clamp_column_0 (Int64 rows) =
     Int64 (map (\<lambda>row. row[0 := clamp_min_int64 (row ! 0)]) rows)"
| "clamp_column_0 (Float32 rows) =
     Float32 (map (\<lambda>row. row[0 := clamp_min_float32 (row ! 0)]) rows)"

text \<open>Line 87, \<^verbatim>\<open>future_poses[:, 1] *= -1\<close>.\<close>

fun fp_neg :: "fp \<Rightarrow> fp" where
  "fp_neg (Fin a) = Fin (a * (- 1))"
| "fp_neg PosInf = NegInf"
| "fp_neg NegInf = PosInf"
| "fp_neg NaN = NaN"

fun negate_column_1 :: "tensor \<Rightarrow> tensor" where
  "negate_column_1 (Int64 rows) = Int64 (map (\<lambda>row. row[1 := row ! 1 * (- 1)]) rows)"
| "negate_column_1 (Float32 rows) = Float32 (map (\<lambda>row. row[1 := fp_neg (row ! 1)]) rows)"

text \<open>
  A column of a tensor exists only when the tensor is two-dimensional and wide enough;
  indexing it otherwise raises \<^verbatim>\<open>IndexError\<close>.
\<close>

definition has_column :: "'a list list \<Rightarrow> nat \<Rightarrow> bool" where
  "has_column rows j = (case rows of [] \<Rightarrow> False | r # rs \<Rightarrow> j < length r)"

fun columns_ok :: "tensor \<Rightarrow> nat \<Rightarrow> bool" where
  "columns_ok (Int64 rows) j = has_column rows j"
| "columns_ok (Float32 rows) j = has_column rows j"

record planning_dataset =
  split :: string
  enable_aug :: bool
  view_transform :: bool

definition PlanningDataset_init :: "string \<Rightarrow> planning_dataset" where
  "PlanningDataset_init sp = \<lparr>split = sp, enable_aug = False, view_transform = False\<rparr>"

text \<open>
  \<open>images_ok\<close> says whether loading and transforming the images succeeds, and \<open>rand\<close> is
  the draw of \<^verbatim>\<open>np.random.rand()\<close>.
\<close>

definition PlanningDataset_getitem ::
  "(real \<Rightarrow> fp) \<Rightarrow> planning_dataset \<Rightarrow> json_num list list \<Rightarrow> bool \<Rightarrow> real
     \<Rightarrow> py_error + tensor" where
  "PlanningDataset_getitem rnd self sample_future_poses images_ok rand =
     (case torch_tensor_2d rnd sample_future_poses of
        Inl e \<Rightarrow> Inl e
      | Inr future_poses \<Rightarrow>
          if \<not> columns_ok future_poses 0 then Inl IndexError
          else
            let future_poses = clamp_column_0 future_poses
            in if \<not> images_ok then Inl ImageError
               else if enable_aug self \<and> split self = ''train''
               then
                 if rand > 1 / 2
                 then
                   if \<not> columns_ok future_poses 1 then Inl IndexError
                   else Inr (negate_column_1 future_poses)
                 else Inr future_poses
               else Inr future_poses)"

subsection \<open>Observations and inputs used in the statements\<close>

text \<open>
  An entry of a \<^verbatim>\<open>float32\<close> tensor that is NaN or at least the \<^verbatim>\<open>float32\<close> value of \<open>0.01\<close>.
  The rounding that changes nothing is the rounding of every number that \<^verbatim>\<open>float32\<close>
  represents.
\<close>

fun nan_or_clamped :: "fp \<Rightarrow> bool" where
  "nan_or_clamped (Fin a) = (float32_1e_2 \<le> a)"
| "nan_or_clamped PosInf = True"
| "nan_or_clamped NegInf = False"
| "nan_or_clamped NaN = True"

definition exact_rounding :: "real \<Rightarrow> fp" where
  "exact_rounding a = Fin a"

section \<open>Properties of the window sampler\<close>

lemma randint_range:
  assumes "randint low high r = Inr v"
  shows "low \<le> v \<and> v < high"
proof -
  from assms have lt: "low < high" and v: "v = low + int r mod (high - low)"
    by (auto simp: randint_def split: if_splits)
  from lt have "0 \<le> int r mod (high - low)" and "int r mod (high - low) < high - low"
    by simp_all
  with v show ?thesis by linarith
qed

lemma randint_reaches:
  assumes "low \<le> v" and "v < high"
  shows "randint low high (nat (v - low)) = Inr v"
  using assms by (simp add: randint_def)

lemma sample_window_too_short_iff:
  "(\<exists>n m. sample_window seq_length fix_len n_pts r = Inl (RuntimeError_too_short n m))
     \<longleftrightarrow> seq_length < fix_len + n_pts"
  by (auto simp: sample_window_def randint_def Let_def split: if_splits)

lemma sample_window_succeeds:
  "fix_len + n_pts < seq_length \<Longrightarrow>
     \<exists>w. sample_window seq_length fix_len n_pts r = Inr w"
  by (simp add: sample_window_def randint_def Let_def)

lemma sample_window_short_39:
  "sample_window 39 40 10 r = Inl (RuntimeError_too_short 39 50)"
  by (simp add: sample_window_def)

text \<open>
  Claim C2. The claim says that sampling succeeds for every sequence length that is at
  least \<open>fix_seq_length + num_pts\<close>, equality included. At equality the guard of line 210
  lets the sequence through, \<^verbatim>\<open>seq_length_delta\<close> is \<open>0\<close>, and \<^verbatim>\<open>np.random.randint(1, 1)\<close>
  raises \<^verbatim>\<open>ValueError\<close>: for a sequence of length 50 with \<open>fix_seq_length = 40\<close> and
  \<open>num_pts = 10\<close> no window is returned, whatever the draw.
\<close>

theorem sample_window_at_equality:
  "sample_window 50 40 10 r = Inl ValueError"
  by (simp add: sample_window_def randint_def)

text \<open>
  Claim C3. Whenever the window sampler returns a window, the window has exactly
  \<open>fix_seq_length\<close> steps, leaves \<open>num_pts\<close> further entries before the end of the sequence,
  and starts at an index between \<open>1\<close> and \<open>seq_length - fix_seq_length - num_pts\<close>, for every
  draw of the random source.
\<close>

theorem sample_window_bounds:
  assumes "sample_window seq_length fix_len n_pts r = Inr (seq_start_idx, seq_end_idx)"
  shows "seq_end_idx - seq_start_idx = fix_len
       \<and> seq_end_idx + n_pts \<le> seq_length
       \<and> 1 \<le> seq_start_idx
       \<and> seq_start_idx \<le> seq_length - fix_len - n_pts"
proof -
  from assms have ge: "\<not> seq_length < fix_len + n_pts"
    by (auto simp: sample_window_def split: if_splits)
  with assms obtain d where
    d: "randint 1 (seq_length - (fix_len + n_pts) + 1) r = Inr d"
    and s: "seq_start_idx = d" and e: "seq_end_idx = d + fix_len"
    by (auto simp: sample_window_def Let_def split: sum.splits)
  from randint_range [OF d] have "1 \<le> d" and "d \<le> seq_length - (fix_len + n_pts)"
    by simp_all
  with s e show ?thesis by simp
qed

theorem sample_window_bounds_witness:
  "sample_window 60 40 10 7 = Inr (8, 48)
   \<and> (48::int) - 8 = 40 \<and> (48::int) + 10 \<le> 60 \<and> (1::int) \<le> 8 \<and> (8::int) \<le> 60 - 40 - 10"
proof -
  have h: "sample_window 60 40 10 7 = Inr (8, 48)"
    by (simp add: sample_window_def randint_def)
  show ?thesis using h sample_window_bounds [OF h] by simp
qed

section \<open>Properties of the pose localizer\<close>

lemma mat_vec_einsum: "einsum_ij_kj_ki A B = map (mat_vec A) B"
  by (cases A) simp

lemma py_slice_window:
  "i \<le> length xs \<Longrightarrow> py_slice xs (int i) (int i + 10) = take 10 (drop i xs)"
  by (auto simp: py_slice_def slice_index_def Let_def min_def nat_add_distrib)

lemma rot_from_quat_mul:
  "rot_from_quat (quat_mul p q) = mat_mul (rot_from_quat p) (rot_from_quat q)"
  by (cases p; cases q) (simp add: algebra_simps)

lemma rot_from_quat_orthogonal:
  assumes "quat_norm2 q = 1"
  shows "mat_mul (transpose_mat (rot_from_quat q)) (rot_from_quat q) = ((1,0,0),(0,1,0),(0,0,1))"
proof -
  obtain w x y z where q: "q = (w, x, y, z)" by (cases q) auto
  from assms q have n: "w * w + x * x + y * y + z * z = 1" by simp
  have sq: "(w * w + x * x + y * y + z * z) * (w * w + x * x + y * y + z * z) = 1"
    using n by simp
  show ?thesis
    unfolding q using sq n
    apply simp
    by algebra
qed

lemma vsub_self: "vsub p p = (0, 0, 0)"
  by (cases p) simp

lemma dot_zero: "dot r (0, 0, 0) = 0"
  by (cases r) simp

lemma mat_vec_zero: "mat_vec A (0, 0, 0) = (0, 0, 0)"
  by (cases A) (simp add: dot_zero)

lemma localize_anchor_Inr:
  "localize_anchor ps os i = Inr l \<longleftrightarrow>
     i < length os \<and> i < length ps \<and> l = take 10 (drop i (map (local_point ps os i) ps))"
  by (auto simp: localize_anchor_def Let_def mat_vec_einsum py_slice_window comp_def)

lemma future_poses_loop_Inr:
  "future_poses_loop ps os is acc = Inr out \<longleftrightarrow>
     (\<exists>ls. out = acc @ ls \<and> list_all2 (\<lambda>i l. localize_anchor ps os i = Inr l) is ls)"
proof (induction "is" arbitrary: acc)
  case Nil
  then show ?case by auto
next
  case (Cons i rest)
  show ?case
  proof (cases "localize_anchor ps os i")
    case (Inl e)
    then show ?thesis by (auto simp: list_all2_Cons1)
  next
    case (Inr l)
    then show ?thesis by (auto simp: Cons.IH list_all2_Cons1)
  qed
qed

lemma pose_localizer_Inr:
  assumes "pose_localizer fix ps os = Inr future_poses"
  shows "length future_poses = nat fix"
    and "i < nat fix \<Longrightarrow> localize_anchor ps os i = Inr (future_poses ! i)"
proof -
  from assms have "future_poses_loop ps os [0..<nat fix] [] = Inr future_poses"
    by (auto simp: pose_localizer_def torch_tensor_def split: sum.splits if_splits)
  then have l2: "list_all2 (\<lambda>i l. localize_anchor ps os i = Inr l) [0..<nat fix] future_poses"
    by (simp add: future_poses_loop_Inr)
  from list_all2_lengthD [OF l2] show "length future_poses = nat fix" by simp
  show "localize_anchor ps os i = Inr (future_poses ! i)" if "i < nat fix"
    using list_all2_nthD [OF l2, of i] that by simp
qed

lemma rectangular_all_equal:
  "\<forall>r \<in> set rows. length r = n \<Longrightarrow> rectangular rows"
  by (cases rows) (auto simp: list_all_iff)

lemma pose_localizer_succeeds:
  assumes "nat fix \<le> length os" and "nat fix + 9 \<le> length ps"
  shows "pose_localizer fix ps os =
           Inr (map (\<lambda>i. take 10 (drop i (map (local_point ps os i) ps))) [0..<nat fix])"
proof -
  let ?lab = "\<lambda>i. take 10 (drop i (map (local_point ps os i) ps))"
  have "list_all2 (\<lambda>i l. localize_anchor ps os i = Inr l) [0..<nat fix] (map ?lab [0..<nat fix])"
    using assms by (auto simp: list_all2_conv_all_nth localize_anchor_Inr)
  then have loop: "future_poses_loop ps os [0..<nat fix] [] = Inr (map ?lab [0..<nat fix])"
    by (simp add: future_poses_loop_Inr)
  have "\<forall>r \<in> set (map ?lab [0..<nat fix]). length r = 10"
    using assms by auto
  then have "rectangular (map ?lab [0..<nat fix])"
    by (rule rectangular_all_equal)
  with loop show ?thesis
    by (simp add: pose_localizer_def torch_tensor_def)
qed

text \<open>
  Claim C1, as amended. For every anchor \<open>i\<close> and every offset \<open>k\<close> of its label, the pose
  localizer computes the rotation matrix \<open>R\<close> from \<open>orientations[i]\<close> and outputs the product
  of the transpose of \<open>R\<close> with \<open>positions[i + k] - positions[i]\<close>: the global-to-local
  matrix is the transpose of \<open>R\<close> (\<^verbatim>\<open>local_from_ecef = ecef_from_local.T\<close>), not \<open>R\<close> itself.
\<close>

theorem pose_localizer_uses_transpose:
  assumes "pose_localizer fix ps os = Inr future_poses"
    and "i < nat fix" and "k < length (future_poses ! i)"
  shows "i < length os \<and> i + k < length ps
       \<and> future_poses ! i ! k =
           mat_vec (transpose_mat (rot_from_quat (os ! i))) (vsub (ps ! (i + k)) (ps ! i))"
proof -
  from pose_localizer_Inr(2) [OF assms(1,2)]
  have a: "i < length os" "i < length ps"
    and l: "future_poses ! i = take 10 (drop i (map (local_point ps os i) ps))"
    by (simp_all add: localize_anchor_Inr)
  from assms(3) l have k: "k < 10" "i + k < length ps" by auto
  with a l show ?thesis by simp
qed

text \<open>
  Claim C6. For every sequence of positions and orientations on which the pose localizer
  returns, and every anchor \<open>i\<close>, the label of \<open>i\<close> is not empty and its first point is the
  zero vector.
\<close>

theorem first_local_point_zero:
  assumes "pose_localizer fix ps os = Inr future_poses" and "i < nat fix"
  shows "future_poses ! i \<noteq> [] \<and> hd (future_poses ! i) = (0, 0, 0)"
proof -
  from pose_localizer_Inr(2) [OF assms]
  have a: "i < length os" "i < length ps"
    and l: "future_poses ! i = take 10 (drop i (map (local_point ps os i) ps))"
    by (simp_all add: localize_anchor_Inr)
  from a have ne: "drop i (map (local_point ps os i) ps) \<noteq> []" by simp
  have z: "local_point ps os i (ps ! i) = (0, 0, 0)"
    by (simp add: vsub_self mat_vec_zero)
  from a have "hd (drop i (map (local_point ps os i) ps)) = local_point ps os i (ps ! i)"
    by (simp add: hd_drop_conv_nth)
  with ne l z show ?thesis by (simp add: take_eq_Nil)
qed

lemma vsub_vadd_cancel: "vsub (vadd a t) (vadd b t) = vsub a b"
  by (cases a; cases b; cases t) simp

lemma dot_vsub: "dot r (vsub a b) = dot r a - dot r b"
  by (cases r; cases a; cases b) (simp add: algebra_simps)

lemma mat_vec_vsub: "vsub (mat_vec A a) (mat_vec A b) = mat_vec A (vsub a b)"
  by (cases A) (simp add: dot_vsub)

lemma mat3_exhaust:
  obtains a00 a01 a02 a10 a11 a12 a20 a21 a22 :: real
  where "A = ((a00, a01, a02), (a10, a11, a12), (a20, a21, a22))"
  by (cases A) auto

lemma transpose_mat_mul:
  "transpose_mat (mat_mul A B) = mat_mul (transpose_mat B) (transpose_mat A)"
  by (cases A rule: mat3_exhaust; cases B rule: mat3_exhaust) (simp add: algebra_simps)

lemma mat_vec_mat_mul: "mat_vec (mat_mul A B) v = mat_vec A (mat_vec B v)"
  by (cases A rule: mat3_exhaust; cases B rule: mat3_exhaust; cases v) (simp add: algebra_simps)

lemma mat_vec_identity: "mat_vec ((1, 0, 0), (0, 1, 0), (0, 0, 1)) v = v"
  by (cases v) simp

lemma local_point_rigid:
  assumes "quat_norm2 qQ = 1"
  shows "mat_vec (transpose_mat (rot_from_quat (quat_mul qQ q)))
           (vsub (vadd (mat_vec (rot_from_quat qQ) p) t) (vadd (mat_vec (rot_from_quat qQ) c) t))
         = mat_vec (transpose_mat (rot_from_quat q)) (vsub p c)"
proof -
  let ?Q = "rot_from_quat qQ" and ?R = "rot_from_quat q"
  have "mat_vec (transpose_mat (rot_from_quat (quat_mul qQ q)))
           (vsub (vadd (mat_vec ?Q p) t) (vadd (mat_vec ?Q c) t))
        = mat_vec (mat_mul (transpose_mat ?R) (transpose_mat ?Q)) (mat_vec ?Q (vsub p c))"
    by (simp add: rot_from_quat_mul transpose_mat_mul vsub_vadd_cancel mat_vec_vsub)
  also have "\<dots> = mat_vec (transpose_mat ?R) (mat_vec (mat_mul (transpose_mat ?Q) ?Q) (vsub p c))"
    by (simp add: mat_vec_mat_mul)
  also have "\<dots> = mat_vec (transpose_mat ?R) (vsub p c)"
    by (simp only: rot_from_quat_orthogonal [OF assms] mat_vec_identity)
  finally show ?thesis .
qed

lemma localize_anchor_in_range:
  "i < length os \<Longrightarrow> i < length ps \<Longrightarrow>
     localize_anchor ps os i = Inr (take 10 (drop i (map (local_point ps os i) ps)))"
  by (simp add: localize_anchor_Inr)

lemma localize_anchor_rigid:
  assumes "quat_norm2 qQ = 1"
  shows "localize_anchor (rigid_positions qQ t ps) (rigid_orientations qQ os) i
         = localize_anchor ps os i"
proof (cases "i < length os \<and> i < length ps")
  case True
  then have m: "map (local_point (rigid_positions qQ t ps) (rigid_orientations qQ os) i)
                (rigid_positions qQ t ps)
             = map (local_point ps os i) ps"
    by (simp add: rigid_positions_def rigid_orientations_def comp_def local_point_rigid [OF assms])
  from True have "i < length (rigid_orientations qQ os)" and "i < length (rigid_positions qQ t ps)"
    by (simp_all add: rigid_positions_def rigid_orientations_def)
  then have "localize_anchor (rigid_positions qQ t ps) (rigid_orientations qQ os) i
        = Inr (take 10 (drop i (map (local_point ps os i) ps)))"
    by (simp only: localize_anchor_in_range m)
  with True show ?thesis by (simp add: localize_anchor_in_range)
next
  case False
  then show ?thesis
    by (auto simp: localize_anchor_def rigid_positions_def rigid_orientations_def)
qed

lemma future_poses_loop_cong:
  assumes "\<And>i. localize_anchor ps' os' i = localize_anchor ps os i"
  shows "future_poses_loop ps' os' is acc = future_poses_loop ps os is acc"
  by (induction "is" arbitrary: acc) (simp_all add: assms split: sum.splits)

text \<open>
  Claim C7. A rigid transform applied to the whole input, a rotation \<open>Q\<close> given by a unit
  quaternion and a translation \<open>t\<close>, with every position mapped to \<open>Q \<cdot> p + t\<close> and every
  orientation composed with \<open>Q\<close>, leaves the result of the pose localizer unchanged: the
  same labels at every anchor and offset, and the same error where there is one.
\<close>

theorem pose_localizer_rigid_invariant:
  assumes "quat_norm2 qQ = 1"
  shows "pose_localizer fix (rigid_positions qQ t ps) (rigid_orientations qQ os)
         = pose_localizer fix ps os"
  by (simp add: pose_localizer_def
        future_poses_loop_cong [OF localize_anchor_rigid [OF assms]])

subsection \<open>The localizer on the example drive\<close>

lemma length_straight_positions [simp]: "length (straight_positions n) = n"
  by (simp add: straight_positions_def)

lemma nth_straight_positions: "j < n \<Longrightarrow> straight_positions n ! j = (real j, 0, 0)"
  by (simp add: straight_positions_def)

lemma length_constant_orientations [simp]: "length (constant_orientations n q) = n"
  by (simp add: constant_orientations_def)

lemma nth_constant_orientations: "j < n \<Longrightarrow> constant_orientations n q ! j = q"
  by (simp add: constant_orientations_def)

lemma pose_localizer_example:
  "pose_localizer 40 (straight_positions 50) (constant_orientations 50 q) =
     Inr (map (\<lambda>i. take 10 (drop i (map (local_point (straight_positions 50)
                 (constant_orientations 50 q) i) (straight_positions 50)))) [0..<nat 40])"
  by (rule pose_localizer_succeeds) simp_all

text \<open>
  Claim C1 as it is stated fails. With the orientation \<open>(1/2, 1/2, 1/2, 1/2)\<close>, whose matrix
  permutes the axes, the point at offset \<open>1\<close> of anchor \<open>0\<close> is \<open>(0, 0, 1)\<close>, while the matrix
  itself applied to the same difference of positions gives \<open>(0, 1, 0)\<close>.
\<close>

theorem pose_localizer_not_rotation_itself:
  "label_at (pose_localizer 40 (straight_positions 50)
               (constant_orientations 50 (1/2, 1/2, 1/2, 1/2))) 0 1 = Some (0, 0, 1)
   \<and> label_at (pose_localizer 40 (straight_positions 50)
               (constant_orientations 50 (1/2, 1/2, 1/2, 1/2))) 0 1
       \<noteq> Some (mat_vec (rot_from_quat (constant_orientations 50 (1/2, 1/2, 1/2, 1/2) ! 0))
                 (vsub (straight_positions 50 ! (0 + 1)) (straight_positions 50 ! 0)))"
  by (simp add: pose_localizer_example label_at_def nth_straight_positions
        nth_constant_orientations del: upt_rec_numeral)

theorem pose_localizer_uses_transpose_witness:
  "pose_localizer 40 (straight_positions 50) (constant_orientations 50 (1/2, 1/2, 1/2, 1/2)) =
     Inr (map (\<lambda>i. take 10 (drop i (map (local_point (straight_positions 50)
                 (constant_orientations 50 (1/2, 1/2, 1/2, 1/2)) i) (straight_positions 50))))
            [0..<nat 40])
   \<and> mat_vec (transpose_mat (rot_from_quat (constant_orientations 50 (1/2, 1/2, 1/2, 1/2) ! 0)))
        (vsub (straight_positions 50 ! (0 + 1)) (straight_positions 50 ! 0)) = (0, 0, 1)"
proof -
  let ?L = "map (\<lambda>i. take 10 (drop i (map (local_point (straight_positions 50)
                 (constant_orientations 50 (1/2, 1/2, 1/2, 1/2)) i) (straight_positions 50))))
            [0..<nat 40]"
  have h1: "pose_localizer 40 (straight_positions 50)
              (constant_orientations 50 (1/2, 1/2, 1/2, 1/2)) = Inr ?L"
    by (rule pose_localizer_example)
  have h2: "0 < nat 40" by simp
  have h3: "1 < length (?L ! 0)" by (simp del: upt_rec_numeral)
  have v: "?L ! 0 ! 1 = (0, 0, 1)"
    by (simp add: nth_straight_positions nth_constant_orientations del: upt_rec_numeral)
  from pose_localizer_uses_transpose [OF h1 h2 h3] v h1 show ?thesis by simp
qed

theorem first_local_point_zero_witness:
  "pose_localizer 40 (straight_positions 50) (constant_orientations 50 (1/2, 1/2, 1/2, 1/2)) =
     Inr (map (\<lambda>i. take 10 (drop i (map (local_point (straight_positions 50)
                 (constant_orientations 50 (1/2, 1/2, 1/2, 1/2)) i) (straight_positions 50))))
            [0..<nat 40])
   \<and> (39::nat) < nat 40
   \<and> hd (map (\<lambda>i. take 10 (drop i (map (local_point (straight_positions 50)
                 (constant_orientations 50 (1/2, 1/2, 1/2, 1/2)) i) (straight_positions 50))))
            [0..<nat 40] ! 39) = (0, 0, 0)"
proof -
  have h1: "pose_localizer 40 (straight_positions 50)
              (constant_orientations 50 (1/2, 1/2, 1/2, 1/2)) =
     Inr (map (\<lambda>i. take 10 (drop i (map (local_point (straight_positions 50)
                 (constant_orientations 50 (1/2, 1/2, 1/2, 1/2)) i) (straight_positions 50))))
            [0..<nat 40])"
    by (rule pose_localizer_example)
  have h2: "(39::nat) < nat 40" by simp
  from first_local_point_zero [OF h1 h2] h1 h2 show ?thesis by blast
qed

theorem pose_localizer_rigid_invariant_witness:
  "quat_norm2 (1/2, 1/2, 1/2, 1/2) = 1
   \<and> pose_localizer 40
       (rigid_positions (1/2, 1/2, 1/2, 1/2) (1, 2, 3) (straight_positions 50))
       (rigid_orientations (1/2, 1/2, 1/2, 1/2) (constant_orientations 50 (1, 0, 0, 0)))
     = pose_localizer 40 (straight_positions 50) (constant_orientations 50 (1, 0, 0, 0))"
proof -
  have h: "quat_norm2 (1/2, 1/2, 1/2, 1/2) = 1" by simp
  from pose_localizer_rigid_invariant [OF h] h show ?thesis by blast
qed

lemma label_lengths_pose_localizer:
  assumes "nat fix \<le> length os" and "nat fix + 9 \<le> length ps"
  shows "label_lengths (pose_localizer fix ps os) = Some (replicate (nat fix) 10)"
proof -
  have "map (\<lambda>i. length (take 10 (drop i (map (local_point ps os i) ps)))) [0..<nat fix]
        = map (\<lambda>i. 10) [0..<nat fix]"
    using assms by (intro map_cong) auto
  then show ?thesis
    by (simp add: pose_localizer_succeeds [OF assms] label_lengths_def comp_def map_replicate_const)
qed

lemma label_lengths_le_10:
  assumes "Comma2k19SequenceDataset_getitem self cap n ps os r = Inr future_poses"
  shows "list_all (\<lambda>label. length label \<le> 10) future_poses"
proof -
  from assms obtain fp fo where p: "pose_localizer (fix_seq_length self) fp fo = Inr future_poses"
    by (auto simp: Comma2k19SequenceDataset_getitem_def Let_def split: if_splits sum.splits prod.splits)
  have "length (future_poses ! i) \<le> 10" if "i < length future_poses" for i
    using pose_localizer_Inr [OF p] that by (auto simp: localize_anchor_Inr)
  then show ?thesis by (auto simp: list_all_length)
qed

text \<open>
  With the default \<open>num_pts = 10\<close> the labels have \<open>num_pts\<close> points; with a smaller value
  the last slices are clipped, the labels differ in length, and \<^verbatim>\<open>torch.tensor\<close> raises.
\<close>

lemma rectangular_nth:
  assumes "rectangular rows" and "i < length rows"
  shows "length (rows ! i) = length (rows ! 0)"
proof (cases rows)
  case Nil
  with assms show ?thesis by simp
next
  case (Cons r rs)
  with assms show ?thesis
    by (cases i) (auto simp: list_all_length)
qed

lemma pose_localizer_ragged:
  assumes "nat fix \<le> length os" and "nat fix \<le> length ps"
    and "i < nat fix" and "length ps < i + 10" and "10 \<le> length ps"
  shows "pose_localizer fix ps os = Inl ValueError"
proof -
  let ?lab = "\<lambda>i. take 10 (drop i (map (local_point ps os i) ps))"
  have "list_all2 (\<lambda>i l. localize_anchor ps os i = Inr l) [0..<nat fix] (map ?lab [0..<nat fix])"
    using assms by (auto simp: list_all2_conv_all_nth localize_anchor_Inr)
  then have loop: "future_poses_loop ps os [0..<nat fix] [] = Inr (map ?lab [0..<nat fix])"
    by (simp add: future_poses_loop_Inr)
  have "\<not> rectangular (map ?lab [0..<nat fix])"
  proof
    assume "rectangular (map ?lab [0..<nat fix])"
    from rectangular_nth [OF this, of i] assms show False by simp
  qed
  with loop show ?thesis by (simp add: pose_localizer_def torch_tensor_def)
qed

lemma getitem_num_pts_5:
  "Comma2k19SequenceDataset_getitem (Comma2k19SequenceDataset_init 5) True 46
        (straight_positions 46) (constant_orientations 46 (1, 0, 0, 0)) r
   = Inl ValueError"
proof -
  have w: "sample_window 46 40 5 r = Inr (1, 41)"
    by (simp add: sample_window_def randint_def)
  have lp: "length (py_slice (straight_positions 46) 1 46) = 45"
    by (simp add: py_slice_def slice_index_def)
  have lo: "length (py_slice (constant_orientations 46 (1, 0, 0, 0)) 1 46) = 45"
    by (simp add: py_slice_def slice_index_def)
  have "pose_localizer 40 (py_slice (straight_positions 46) 1 46)
          (py_slice (constant_orientations 46 (1, 0, 0, 0)) 1 46) = Inl ValueError"
    by (rule pose_localizer_ragged [where i = 36]) (simp_all add: lp lo)
  then show ?thesis
    by (simp add: Comma2k19SequenceDataset_getitem_def Comma2k19SequenceDataset_init_def w)
qed

lemma getitem_default_num_pts:
  "label_lengths
     (Comma2k19SequenceDataset_getitem (Comma2k19SequenceDataset_init 10) True 51
        (straight_positions 51) (constant_orientations 51 (1, 0, 0, 0)) r)
   = Some (replicate 40 10)"
proof -
  have w: "sample_window 51 40 10 r = Inr (1, 41)"
    by (simp add: sample_window_def randint_def)
  have lp: "length (py_slice (straight_positions 51) 1 51) = 50"
    by (simp add: py_slice_def slice_index_def)
  have lo: "length (py_slice (constant_orientations 51 (1, 0, 0, 0)) 1 51) = 50"
    by (simp add: py_slice_def slice_index_def)
  have "label_lengths (pose_localizer 40 (py_slice (straight_positions 51) 1 51)
          (py_slice (constant_orientations 51 (1, 0, 0, 0)) 1 51)) = Some (replicate (nat 40) 10)"
    by (rule label_lengths_pose_localizer) (simp_all add: lp lo)
  then show ?thesis
    by (simp add: Comma2k19SequenceDataset_getitem_def Comma2k19SequenceDataset_init_def w)
qed

text \<open>
  Claim C8. The claim says that every label has \<open>num_pts\<close> points. Line 239 takes the slice
  \<^verbatim>\<open>[i: i+10]\<close> whatever \<open>num_pts\<close> is: for a dataset built with \<open>num_pts = 20\<close> and a drive of
  61 frames, each of the 40 labels has 10 points, not 20.
\<close>

theorem label_rows_ten_for_num_pts_20:
  "label_lengths
     (Comma2k19SequenceDataset_getitem (Comma2k19SequenceDataset_init 20) True 61
        (straight_positions 61) (constant_orientations 61 (1, 0, 0, 0)) r)
   = Some (replicate 40 10)"
proof -
  have w: "sample_window 61 40 20 r = Inr (1, 41)"
    by (simp add: sample_window_def randint_def)
  have lp: "length (py_slice (straight_positions 61) 1 61) = 60"
    by (simp add: py_slice_def slice_index_def)
  have lo: "length (py_slice (constant_orientations 61 (1, 0, 0, 0)) 1 61) = 60"
    by (simp add: py_slice_def slice_index_def)
  have "label_lengths (pose_localizer 40 (py_slice (straight_positions 61) 1 61)
          (py_slice (constant_orientations 61 (1, 0, 0, 0)) 1 61)) = Some (replicate (nat 40) 10)"
    by (rule label_lengths_pose_localizer) (simp_all add: lp lo)
  then show ?thesis
    by (simp add: Comma2k19SequenceDataset_getitem_def Comma2k19SequenceDataset_init_def w)
qed

section \<open>Properties of PlanningDataset\<close>

lemma float32_1e_2_below: "float32_1e_2 < 1 / 100"
  by (simp add: float32_1e_2_def)

lemma clamp_min_int64_eq: "clamp_min_int64 n = max n 0"
proof (cases "1 \<le> n")
  case True
  then have "(1::real) \<le> of_int n" by simp
  then have "max (of_int n) float32_1e_2 = (of_int n :: real)"
    by (simp add: float32_1e_2_def max_def)
  with True show ?thesis by (simp add: clamp_min_int64_def trunc_def)
next
  case False
  then have "(of_int n :: real) \<le> 0" by simp
  then have "max (of_int n) float32_1e_2 = float32_1e_2"
    by (simp add: float32_1e_2_def max_def)
  moreover have "\<lfloor>float32_1e_2\<rfloor> = 0" by (simp add: float32_1e_2_def)
  moreover have "0 \<le> float32_1e_2" by (simp add: float32_1e_2_def)
  ultimately show ?thesis using False by (simp add: clamp_min_int64_def trunc_def)
qed

lemma rectangular_lengths:
  "rectangular (r # rs) \<Longrightarrow> x \<in> set (r # rs) \<Longrightarrow> length x = length r"
  by (auto simp: list_all_iff)

lemma clamp_min_float32_clamped: "nan_or_clamped (clamp_min_float32 v)"
  by (cases v) simp_all

lemma those_as_int_None:
  "JFloat v \<in> set xs \<Longrightarrow> those (map as_int xs) = None"
  by (induction xs) (auto split: option.splits)

text \<open>A sample that holds a float gives a \<^verbatim>\<open>float32\<close> tensor.\<close>

lemma torch_tensor_2d_float:
  assumes "torch_tensor_2d rnd rows = Inr t" and "JFloat v \<in> set (concat rows)"
  shows "\<exists>frows. t = Float32 frows"
  using assms those_as_int_None [OF assms(2)]
  by (auto simp: torch_tensor_2d_def split: if_splits)

text \<open>
  Claim C10, as amended. For every sample that \<^verbatim>\<open>PlanningDataset.__getitem__\<close> returns with a
  \<^verbatim>\<open>float32\<close> tensor \<^verbatim>\<open>future_poses\<close>, every row has a first coordinate that is NaN or at least
  the \<^verbatim>\<open>float32\<close> value of \<open>0.01\<close>, which is \<open>5368709 / 2 ^ 29\<close>: the clamp of line 72 comes
  first, and the flip of the augmentation changes the second coordinate only.
\<close>

theorem float32_forward_coordinate_clamped:
  assumes "PlanningDataset_getitem rnd self sample_future_poses images_ok rand = Inr (Float32 rows)"
  shows "\<forall>row \<in> set rows. row \<noteq> [] \<and> nan_or_clamped (hd row)"
proof -
  from assms obtain t where t: "torch_tensor_2d rnd sample_future_poses = Inr t"
    and c: "columns_ok t 0"
    and r: "clamp_column_0 t = Float32 rows \<or> negate_column_1 (clamp_column_0 t) = Float32 rows"
    by (auto simp: PlanningDataset_getitem_def Let_def split: sum.splits if_splits)
  from t have rect: "rectangular sample_future_poses"
    by (auto simp: torch_tensor_2d_def split: if_splits)
  from r obtain frows where f: "t = Float32 frows" by (cases t) auto
  with t have fr: "frows = map (map (as_float32 rnd)) sample_future_poses"
    by (auto simp: torch_tensor_2d_def split: if_splits option.splits)
  from c f obtain r0 rs where rs: "frows = r0 # rs" and r0: "0 < length r0"
    by (auto simp: has_column_def split: list.splits)
  from rect fr have "rectangular frows"
    by (cases sample_future_poses) (auto simp: list_all_iff)
  then have ne: "x \<noteq> []" if "x \<in> set frows" for x
    using rectangular_lengths [of r0 rs x] that rs r0 by auto
  let ?cl = "map (\<lambda>row. row[0 := clamp_min_float32 (row ! 0)]) frows"
  have cl: "row \<noteq> [] \<and> nan_or_clamped (hd row)" if "row \<in> set ?cl" for row
  proof -
    from that obtain x where x: "x \<in> set frows"
      and row: "row = x[0 := clamp_min_float32 (x ! 0)]" by auto
    from ne [OF x] obtain a as where "x = a # as" by (cases x) auto
    with row show ?thesis by (simp add: clamp_min_float32_clamped)
  qed
  from r f have "rows = ?cl \<or> rows = map (\<lambda>row. row[1 := fp_neg (row ! 1)]) ?cl"
    by auto
  then show ?thesis
  proof
    assume "rows = ?cl"
    with cl show ?thesis by blast
  next
    assume f: "rows = map (\<lambda>row. row[1 := fp_neg (row ! 1)]) ?cl"
    show ?thesis
    proof
      fix row assume "row \<in> set rows"
      then have "row \<in> (\<lambda>row. row[1 := fp_neg (row ! 1)]) ` set ?cl"
        unfolding f set_map .
      then obtain y where row: "row = y[1 := fp_neg (y ! 1)]" and y: "y \<in> set ?cl"
        by (rule imageE)
      from cl [OF y] obtain a as where "y = a # as" "nan_or_clamped a" by (cases y) auto
      with row show "row \<noteq> [] \<and> nan_or_clamped (hd row)" by simp
    qed
  qed
qed

theorem float32_forward_coordinate_clamped_witness:
  "PlanningDataset_getitem exact_rounding (PlanningDataset_init ''train'')
       [[JFloat (Fin (- 1)), JFloat (Fin 2), JInt 3], [JFloat (Fin (1 / 2)), JInt 0, JInt 0]]
       True (3 / 4)
     = Inr (Float32 [[Fin float32_1e_2, Fin 2, Fin 3], [Fin (1 / 2), Fin 0, Fin 0]])
   \<and> nan_or_clamped (hd [Fin float32_1e_2, Fin 2, Fin 3])
   \<and> nan_or_clamped (hd [Fin (1 / 2), Fin 0, Fin 0])"
proof -
  have h: "PlanningDataset_getitem exact_rounding (PlanningDataset_init ''train'')
       [[JFloat (Fin (- 1)), JFloat (Fin 2), JInt 3], [JFloat (Fin (1 / 2)), JInt 0, JInt 0]]
       True (3 / 4)
     = Inr (Float32 [[Fin float32_1e_2, Fin 2, Fin 3], [Fin (1 / 2), Fin 0, Fin 0]])"
    by (simp add: PlanningDataset_getitem_def PlanningDataset_init_def torch_tensor_2d_def
          has_column_def in_int64_def List.map_filter_simps exact_rounding_def)
       (simp add: float32_1e_2_def)
  from float32_forward_coordinate_clamped [OF h]
  have "nan_or_clamped (hd [Fin float32_1e_2, Fin 2, Fin 3])"
    and "nan_or_clamped (hd [Fin (1 / 2), Fin 0, Fin 0])"
    by simp_all
  with h show ?thesis by blast
qed

text \<open>
  Claim C10 as it is stated fails. A first coordinate of \<open>- 1\<close> is clamped to the \<^verbatim>\<open>float32\<close>
  value of \<open>0.01\<close>, which is below \<open>1 / 100\<close>; a NaN passes the clamp; and a sample of integers
  only gives an \<^verbatim>\<open>int64\<close> tensor, in which the clamped first coordinate \<open>0\<close> stays \<open>0\<close>.
\<close>

theorem forward_coordinate_below_1e_2:
  "PlanningDataset_getitem exact_rounding (PlanningDataset_init ''train'')
       [[JFloat (Fin (- 1)), JFloat (Fin 2), JFloat (Fin 3)]] True (3 / 4)
     = Inr (Float32 [[Fin float32_1e_2, Fin 2, Fin 3]])
   \<and> float32_1e_2 < 1 / 100
   \<and> PlanningDataset_getitem exact_rounding (PlanningDataset_init ''train'')
       [[JFloat NaN, JFloat (Fin 2), JFloat (Fin 3)]] True (3 / 4)
     = Inr (Float32 [[NaN, Fin 2, Fin 3]])
   \<and> PlanningDataset_getitem exact_rounding (PlanningDataset_init ''train'')
       [[JInt 0, JInt 2, JInt 3], [JInt 1, JInt 0, JInt 0]] True (3 / 4)
     = Inr (Int64 [[0, 2, 3], [1, 0, 0]])"
proof -
  have "PlanningDataset_getitem exact_rounding (PlanningDataset_init ''train'')
       [[JFloat (Fin (- 1)), JFloat (Fin 2), JFloat (Fin 3)]] True (3 / 4)
     = Inr (Float32 [[Fin float32_1e_2, Fin 2, Fin 3]])"
    by (simp add: PlanningDataset_getitem_def PlanningDataset_init_def torch_tensor_2d_def
          has_column_def in_int64_def List.map_filter_simps exact_rounding_def)
       (simp add: float32_1e_2_def)
  moreover have "PlanningDataset_getitem exact_rounding (PlanningDataset_init ''train'')
       [[JFloat NaN, JFloat (Fin 2), JFloat (Fin 3)]] True (3 / 4)
     = Inr (Float32 [[NaN, Fin 2, Fin 3]])"
    by (simp add: PlanningDataset_getitem_def PlanningDataset_init_def torch_tensor_2d_def
          has_column_def in_int64_def List.map_filter_simps exact_rounding_def)
  moreover have "PlanningDataset_getitem exact_rounding (PlanningDataset_init ''train'')
       [[JInt 0, JInt 2, JInt 3], [JInt 1, JInt 0, JInt 0]] True (3 / 4)
     = Inr (Int64 [[0, 2, 3], [1, 0, 0]])"
    by (simp add: PlanningDataset_getitem_def PlanningDataset_init_def torch_tensor_2d_def
          has_column_def clamp_min_int64_eq in_int64_def List.map_filter_simps)
  ultimately show ?thesis using float32_1e_2_below by blast
qed

text \<open>
  With the augmentation switched on and a draw above one half, the second coordinate is
  negated and the first is still the clamped one.
\<close>

lemma flip_example:
  "PlanningDataset_getitem exact_rounding
       \<lparr>split = ''train'', enable_aug = True, view_transform = False\<rparr>
       [[JFloat (Fin (- 1)), JFloat (Fin 2), JFloat (Fin 3)]] True (3 / 4)
     = Inr (Float32 [[Fin float32_1e_2, Fin (- 2), Fin 3]])"
  by (simp add: PlanningDataset_getitem_def torch_tensor_2d_def
        has_column_def in_int64_def List.map_filter_simps exact_rounding_def)
     (simp add: float32_1e_2_def)

section \<open>Properties of the training loop\<close>

lemma ceiling_div_nat:
  assumes "0 < n"
  shows "nat \<lceil>real a / real n\<rceil> = a div n + (if a mod n = 0 then 0 else 1)"
proof -
  have "\<lceil>real a / real n\<rceil> = \<lceil>of_int (int a) / (of_int (int n) :: real)\<rceil>" by simp
  also have "\<dots> = - (- int a div int n)" by (rule ceiling_divide_eq_div)
  finally have c: "\<lceil>real a / real n\<rceil> = - (- int a div int n)" .
  from assms have n0: "int n \<noteq> 0" by simp
  have im: "(int a mod int n = 0) = (a mod n = 0)"
    by (simp flip: of_nat_mod)
  have d: "- int a div int n = (if a mod n = 0 then - int (a div n) else - int (a div n) - 1)"
    by (simp add: zdiv_zminus1_eq_if [OF n0] im zdiv_int)
  show ?thesis
  proof (cases "a mod n = 0")
    case True
    with c d have "\<lceil>real a / real n\<rceil> = int (a div n)" by simp
    with True show ?thesis by simp
  next
    case False
    with c d have "\<lceil>real a / real n\<rceil> = int (a div n) + 1" by simp
    with False show ?thesis by simp
  qed
qed

lemma mod_int_nat:
  assumes "0 < T"
  shows "((int t + 1) mod T = 0) = (Suc t mod nat T = 0)"
proof -
  from assms have "int (Suc t mod nat T) = int (Suc t) mod T"
    by (simp add: zmod_int)
  then show ?thesis
    by (metis Suc_eq_plus1 of_nat_0 of_nat_Suc of_nat_eq_iff add.commute of_nat_1 of_nat_add)
qed

lemma train_step_Inr:
  assumes "0 < optimize_per_n_step tr"
  shows "\<exists>s' new. train_step tr t x s = Inr s' \<and> events s' = events s @ new
           \<and> count_list new OptimizerStep = (if Suc t mod nat (optimize_per_n_step tr) = 0 then 1 else 0)
           \<and> ValidationStep \<notin> set new
           \<and> (isinstance_int (total_loss s') \<longleftrightarrow> Suc t mod nat (optimize_per_n_step tr) = 0)"
proof -
  obtain l h where f: "forward_loss tr (weights s) x (hidden s) = (l, h)"
    by (cases "forward_loss tr (weights s) x (hidden s)")
  note m = mod_int_nat [OF assms, of t]
  show ?thesis
    using assms
    by (cases "total_loss s")
       (simp_all add: train_step_def Let_def f m optimizer_update_def)
qed

lemma train_step_ops:
  assumes "0 < optimize_per_n_step tr"
  shows "\<exists>s' new. train_step tr t x s = Inr s' \<and> events s' = events s @ new
           \<and> map erase_loss new =
               (if Suc t mod nat (optimize_per_n_step tr) = 0
                then [Detach, ZeroGrad, Backward (Fin 0), OptimizerStep, LrSchedulerStep] else [])
           \<and> (isinstance_int (total_loss s') \<longleftrightarrow> Suc t mod nat (optimize_per_n_step tr) = 0)"
proof -
  obtain l h where f: "forward_loss tr (weights s) x (hidden s) = (l, h)"
    by (cases "forward_loss tr (weights s) x (hidden s)")
  note m = mod_int_nat [OF assms, of t]
  show ?thesis
    using assms
    by (cases "total_loss s")
       (simp_all add: train_step_def Let_def f m optimizer_update_def)
qed

lemma train_steps_Inr:
  assumes "0 < optimize_per_n_step tr"
    and "isinstance_int (total_loss s) \<longleftrightarrow> t mod nat (optimize_per_n_step tr) = 0"
  shows "\<exists>s' new. train_steps tr t xs s = Inr s' \<and> events s' = events s @ new
           \<and> count_list new OptimizerStep + t div nat (optimize_per_n_step tr)
                = (t + length xs) div nat (optimize_per_n_step tr)
           \<and> ValidationStep \<notin> set new
           \<and> (isinstance_int (total_loss s') \<longleftrightarrow>
                (t + length xs) mod nat (optimize_per_n_step tr) = 0)"
  using assms(2)
proof (induction xs arbitrary: t s)
  case Nil
  then show ?case by simp
next
  case (Cons x xs)
  from train_step_Inr [OF assms(1), of t x s]
  obtain s1 new1 where s1: "train_step tr t x s = Inr s1" "events s1 = events s @ new1"
    "count_list new1 OptimizerStep = (if Suc t mod nat (optimize_per_n_step tr) = 0 then 1 else 0)"
    "ValidationStep \<notin> set new1"
    "isinstance_int (total_loss s1) \<longleftrightarrow> Suc t mod nat (optimize_per_n_step tr) = 0"
    by (elim exE conjE) (rule that)
  from Cons.IH [OF s1(5)]
  obtain s2 new2 where s2: "train_steps tr (Suc t) xs s1 = Inr s2" "events s2 = events s1 @ new2"
    "count_list new2 OptimizerStep + Suc t div nat (optimize_per_n_step tr)
       = (Suc t + length xs) div nat (optimize_per_n_step tr)"
    "ValidationStep \<notin> set new2"
    "isinstance_int (total_loss s2) \<longleftrightarrow> (Suc t + length xs) mod nat (optimize_per_n_step tr) = 0"
    by (elim exE conjE) (rule that)
  have "count_list (new1 @ new2) OptimizerStep + t div nat (optimize_per_n_step tr)
          = (t + length (x # xs)) div nat (optimize_per_n_step tr)"
    using s1(3) s2(3) by (simp add: div_Suc split: if_splits)
  with s1 s2 show ?case
    by (intro exI [of _ s2] exI [of _ "new1 @ new2"]) simp
qed

lemma train_window_Inr:
  assumes "0 < optimize_per_n_step tr"
  shows "\<exists>s' new. train_window tr seq s = Inr s' \<and> events s' = events s @ new
           \<and> count_list new OptimizerStep
                = nat \<lceil>real (length seq) / real_of_int (optimize_per_n_step tr)\<rceil>
           \<and> ValidationStep \<notin> set new"
proof -
  let ?n = "nat (optimize_per_n_step tr)"
  let ?s0 = "s\<lparr>hidden := zeros tr, total_loss := PyInt 0, graph := []\<rparr>"
  from assms have n: "0 < ?n" by simp
  have "isinstance_int (total_loss ?s0) \<longleftrightarrow> 0 mod ?n = 0" by simp
  from train_steps_Inr [OF assms this, of seq]
  obtain s1 new1 where s1: "train_steps tr 0 seq ?s0 = Inr s1" "events s1 = events s @ new1"
    "count_list new1 OptimizerStep = length seq div ?n"
    "ValidationStep \<notin> set new1"
    "isinstance_int (total_loss s1) \<longleftrightarrow> length seq mod ?n = 0"
    by auto
  from assms have r: "real_of_int (optimize_per_n_step tr) = real ?n" by simp
  show ?thesis
  proof (cases "total_loss s1")
    case (PyInt k)
    with s1 show ?thesis
      by (intro exI [of _ s1] exI [of _ new1])
         (simp add: train_window_def r ceiling_div_nat [OF n])
  next
    case (Tensor v)
    with s1 show ?thesis
      by (intro exI [of _ "s1\<lparr>weights := lr_step tr (backward_step tr (weights s1) (graph s1)),
              events := events s1 @ [ZeroGrad, Backward v, OptimizerStep, LrSchedulerStep]\<rparr>"]
            exI [of _ "new1 @ [ZeroGrad, Backward v, OptimizerStep, LrSchedulerStep]"])
         (simp add: train_window_def optimizer_update_def r ceiling_div_nat [OF n])
  qed
qed

text \<open>
  Claim C4. For every window and every truncation length \<open>T > 0\<close> (\<^verbatim>\<open>optimize_per_n_step\<close>),
  the window runs to its end and the number of calls of \<^verbatim>\<open>optimizer.step()\<close> made for it is
  the ceiling of its length divided by \<open>T\<close>.
\<close>

theorem optimizer_steps_ceiling:
  assumes "0 < optimize_per_n_step tr"
  shows "optimizer_steps tr seq s =
           Some (nat \<lceil>real (length seq) / real_of_int (optimize_per_n_step tr)\<rceil>)"
proof -
  from train_window_Inr [OF assms, of seq s]
  obtain s' new where "train_window tr seq s = Inr s'" "events s' = events s @ new"
    "count_list new OptimizerStep = nat \<lceil>real (length seq) / real_of_int (optimize_per_n_step tr)\<rceil>"
    by (elim exE conjE) (rule that)
  then show ?thesis by (simp add: optimizer_steps_def window_events_def)
qed

lemma train_steps_ops:
  assumes "0 < optimize_per_n_step tr" and "optimize_per_n_step tr' = optimize_per_n_step tr"
    and "length xs' = length xs"
    and "isinstance_int (total_loss s') = isinstance_int (total_loss s)"
  shows "\<exists>a b new new'. train_steps tr t xs s = Inr a \<and> train_steps tr' t xs' s' = Inr b
           \<and> events a = events s @ new \<and> events b = events s' @ new'
           \<and> map erase_loss new' = map erase_loss new
           \<and> isinstance_int (total_loss b) = isinstance_int (total_loss a)"
  using assms(3,4)
proof (induction xs' xs arbitrary: t s s' rule: list_induct2')
  case 1
  then show ?case by simp
next
  case (4 x' xs' x xs)
  from assms have p': "0 < optimize_per_n_step tr'" by simp
  from train_step_ops [OF assms(1), of t x s]
  obtain a1 new1 where a1: "train_step tr t x s = Inr a1" "events a1 = events s @ new1"
    "map erase_loss new1 = (if Suc t mod nat (optimize_per_n_step tr) = 0
        then [Detach, ZeroGrad, Backward (Fin 0), OptimizerStep, LrSchedulerStep] else [])"
    "isinstance_int (total_loss a1) \<longleftrightarrow> Suc t mod nat (optimize_per_n_step tr) = 0"
    by (elim exE conjE) (rule that)
  from train_step_ops [OF p', of t x' s']
  obtain b1 new1' where b1: "train_step tr' t x' s' = Inr b1" "events b1 = events s' @ new1'"
    "map erase_loss new1' = (if Suc t mod nat (optimize_per_n_step tr) = 0
        then [Detach, ZeroGrad, Backward (Fin 0), OptimizerStep, LrSchedulerStep] else [])"
    "isinstance_int (total_loss b1) \<longleftrightarrow> Suc t mod nat (optimize_per_n_step tr) = 0"
    unfolding assms(2) by (elim exE conjE) (rule that)
  from 4(2) have len: "length xs' = length xs" by simp
  from a1(4) b1(4) have "isinstance_int (total_loss b1) = isinstance_int (total_loss a1)" by simp
  from 4(1) [OF len this, of "Suc t"]
  obtain a b new new' where ab: "train_steps tr (Suc t) xs a1 = Inr a"
    "train_steps tr' (Suc t) xs' b1 = Inr b"
    "events a = events a1 @ new" "events b = events b1 @ new'"
    "map erase_loss new' = map erase_loss new"
    "isinstance_int (total_loss b) = isinstance_int (total_loss a)"
    by (elim exE conjE) (rule that)
  with a1 b1 show ?case
    by (intro exI [of _ a] exI [of _ b] exI [of _ "new1 @ new"] exI [of _ "new1' @ new'"]) simp
qed simp_all

text \<open>
  The calls made for a window (detach, zero_grad, backward, step, scheduler step), in their
  order, do not depend on the values of the losses; only the value handed to
  \<^verbatim>\<open>backward\<close> does.
\<close>

lemma window_events_independent_of_loss:
  assumes "0 < optimize_per_n_step tr" and "optimize_per_n_step tr' = optimize_per_n_step tr"
    and "length seq' = length seq"
  shows "window_events tr seq s \<noteq> None
       \<and> map_option (map erase_loss) (window_events tr' seq' s')
           = map_option (map erase_loss) (window_events tr seq s)"
proof -
  let ?s0 = "s\<lparr>hidden := zeros tr, total_loss := PyInt 0, graph := []\<rparr>"
  let ?s0' = "s'\<lparr>hidden := zeros tr', total_loss := PyInt 0, graph := []\<rparr>"
  have "isinstance_int (total_loss ?s0') = isinstance_int (total_loss ?s0)" by simp
  from train_steps_ops [OF assms this, of 0]
  obtain a b new new' where ab: "train_steps tr 0 seq ?s0 = Inr a"
    "train_steps tr' 0 seq' ?s0' = Inr b"
    "events a = events s @ new" "events b = events s' @ new'"
    "map erase_loss new' = map erase_loss new"
    "isinstance_int (total_loss b) = isinstance_int (total_loss a)"
    by auto
  show ?thesis
  proof (cases "total_loss a")
    case (PyInt k)
    with ab(6) obtain k' where "total_loss b = PyInt k'" by (cases "total_loss b") auto
    with PyInt ab show ?thesis
      by (simp add: window_events_def train_window_def)
  next
    case (Tensor v)
    with ab(6) obtain v' where "total_loss b = Tensor v'" by (cases "total_loss b") auto
    with Tensor ab show ?thesis
      by (simp add: window_events_def train_window_def optimizer_update_def)
  qed
qed

lemma optimizer_steps_7_3: "optimizer_steps (replay_trainer 3) (replicate 7 (Fin 1)) fresh_state = Some 3"
  by (simp add: optimizer_steps_def window_events_def train_window_def train_step_def
        optimizer_update_def replay_trainer_def fresh_state_def Let_def numeral_eq_Suc)

theorem optimizer_steps_ceiling_witness:
  "(0::int) < optimize_per_n_step (replay_trainer 3)
   \<and> optimizer_steps (replay_trainer 3) (replicate 7 (Fin 1)) fresh_state = Some 3"
proof -
  have h: "(0::int) < optimize_per_n_step (replay_trainer 3)"
    by (simp add: replay_trainer_def)
  have "nat \<lceil>real (length (replicate 7 (Fin 1))) / real_of_int (optimize_per_n_step (replay_trainer 3))\<rceil> = 3"
    by (simp add: replay_trainer_def)
  with optimizer_steps_ceiling [OF h, of "replicate 7 (Fin 1)" fresh_state] h show ?thesis by simp
qed

text \<open>
  Claim C5 as it is stated fails. In a window of 40 steps with \<open>T = 40\<close> whose last step has
  the loss NaN, the accumulated loss is NaN, and it is backpropagated and the optimizer
  step is taken.
\<close>

theorem non_finite_loss_is_applied:
  "\<not> is_finite NaN
   \<and> window_events (replay_trainer 40) (replicate 39 (Fin 1) @ [NaN]) fresh_state
       = Some [Detach, ZeroGrad, Backward NaN, OptimizerStep, LrSchedulerStep]"
  by (simp add: window_events_def train_window_def train_step_def
        optimizer_update_def replay_trainer_def fresh_state_def Let_def numeral_eq_Suc)

lemma window_events_independent_of_loss_example:
  "(0::int) < optimize_per_n_step (replay_trainer 40)
   \<and> optimize_per_n_step (replay_trainer 40) = optimize_per_n_step (replay_trainer 40)
   \<and> length (replicate 39 (Fin 1) @ [NaN]) = length (replicate 40 (Fin 1))
   \<and> window_events (replay_trainer 40) (replicate 40 (Fin 1)) fresh_state \<noteq> None
   \<and> map_option (map erase_loss)
         (window_events (replay_trainer 40) (replicate 39 (Fin 1) @ [NaN]) fresh_state)
       = map_option (map erase_loss)
           (window_events (replay_trainer 40) (replicate 40 (Fin 1)) fresh_state)"
proof -
  have h1: "(0::int) < optimize_per_n_step (replay_trainer 40)"
    by (simp add: replay_trainer_def)
  have h2: "optimize_per_n_step (replay_trainer 40) = optimize_per_n_step (replay_trainer 40)"
    by simp
  have h3: "length (replicate 39 (Fin 1) @ [NaN]) = length (replicate 40 (Fin 1))"
    by simp
  from window_events_independent_of_loss [OF h1 h2 h3, of fresh_state fresh_state] h1 h3 show ?thesis by simp
qed

subsection \<open>A segment with a non-finite loss\<close>

lemma fp_add_non_finite:
  "\<not> is_finite a \<or> \<not> is_finite b \<Longrightarrow> \<not> is_finite (fp_add a b)"
  by (cases a; cases b) auto

lemma fp_div_int_non_finite: "\<not> is_finite a \<Longrightarrow> \<not> is_finite (fp_div_int a n)"
  by (cases a) auto

lemma py_iadd_non_finite:
  "non_finite_acc l \<or> \<not> is_finite x \<Longrightarrow> non_finite_acc (py_iadd l x)"
  by (cases l) (auto simp: non_finite_acc_def fp_add_non_finite)

lemma py_iadd_Tensor: "\<exists>v. py_iadd l x = Tensor v"
  by (cases l) auto

lemma train_step_inside:
  assumes "0 < optimize_per_n_step tr" and "Suc t mod nat (optimize_per_n_step tr) \<noteq> 0"
  shows "\<exists>s'. train_step tr t x s = Inr s' \<and> weights s' = weights s \<and> events s' = events s
           \<and> graph s' = graph s @ [(x, hidden s)]
           \<and> total_loss s' =
                py_iadd (total_loss s)
                  (fp_div_int (fst (forward_loss tr (weights s) x (hidden s)))
                     (optimize_per_n_step tr))"
proof -
  obtain l h where f: "forward_loss tr (weights s) x (hidden s) = (l, h)"
    by (cases "forward_loss tr (weights s) x (hidden s)")
  note m = mod_int_nat [OF assms(1), of t]
  show ?thesis
    using assms by (simp add: train_step_def Let_def f m)
qed

lemma train_step_boundary:
  assumes "0 < optimize_per_n_step tr" and "Suc t mod nat (optimize_per_n_step tr) = 0"
  shows "\<exists>s' v. train_step tr t x s = Inr s'
           \<and> py_iadd (total_loss s)
                (fp_div_int (fst (forward_loss tr (weights s) x (hidden s)))
                   (optimize_per_n_step tr)) = Tensor v
           \<and> events s' = events s @ [Detach, ZeroGrad, Backward v, OptimizerStep, LrSchedulerStep]
           \<and> weights s' = lr_step tr (backward_step tr (weights s) (graph s @ [(x, hidden s)]))
           \<and> total_loss s' = PyInt 0 \<and> graph s' = []"
proof -
  obtain l h where f: "forward_loss tr (weights s) x (hidden s) = (l, h)"
    by (cases "forward_loss tr (weights s) x (hidden s)")
  obtain v where v: "py_iadd (total_loss s) (fp_div_int l (optimize_per_n_step tr)) = Tensor v"
    using py_iadd_Tensor by blast
  note m = mod_int_nat [OF assms(1), of t]
  show ?thesis
    using assms by (simp add: train_step_def Let_def f m v optimizer_update_def)
qed

lemma train_steps_append:
  "train_steps tr t (xs @ ys) s =
     (case train_steps tr t xs s of
        Inl e \<Rightarrow> Inl e
      | Inr s1 \<Rightarrow> train_steps tr (t + length xs) ys s1)"
  by (induction xs arbitrary: t s) (simp_all split: sum.splits)

lemma train_steps_inside:
  assumes "0 < optimize_per_n_step tr"
    and "\<forall>i < length xs. Suc (t + i) mod nat (optimize_per_n_step tr) \<noteq> 0"
  shows "\<exists>s'. train_steps tr t xs s = Inr s' \<and> weights s' = weights s \<and> events s' = events s
           \<and> map fst (graph s') = map fst (graph s) @ xs
           \<and> (non_finite_acc (total_loss s) \<longrightarrow> non_finite_acc (total_loss s'))"
  using assms(2)
proof (induction xs arbitrary: t s)
  case Nil
  then show ?case by simp
next
  case (Cons x xs)
  from Cons.prems have "Suc t mod nat (optimize_per_n_step tr) \<noteq> 0" by auto
  from train_step_inside [OF assms(1) this, of x s]
  obtain s1 where s1: "train_step tr t x s = Inr s1" "weights s1 = weights s"
    "events s1 = events s" "graph s1 = graph s @ [(x, hidden s)]"
    "total_loss s1 = py_iadd (total_loss s)
        (fp_div_int (fst (forward_loss tr (weights s) x (hidden s))) (optimize_per_n_step tr))"
    by (elim exE conjE) (rule that)
  from Cons.prems have "\<forall>i < length xs. Suc (Suc t + i) mod nat (optimize_per_n_step tr) \<noteq> 0"
    by auto
  from Cons.IH [OF this, of s1]
  obtain s2 where s2: "train_steps tr (Suc t) xs s1 = Inr s2" "weights s2 = weights s1"
    "events s2 = events s1" "map fst (graph s2) = map fst (graph s1) @ xs"
    "non_finite_acc (total_loss s1) \<longrightarrow> non_finite_acc (total_loss s2)"
    by (elim exE conjE) (rule that)
  have "non_finite_acc (total_loss s) \<longrightarrow> non_finite_acc (total_loss s1)"
    by (simp add: s1(5) py_iadd_non_finite)
  with s1 s2 show ?case by simp
qed

lemma train_steps_inside_non_finite:
  assumes T: "0 < optimize_per_n_step tr"
    and inside: "\<forall>i < length xs. Suc (t + i) mod nat (optimize_per_n_step tr) \<noteq> 0"
    and j: "j < length xs"
    and sj: "train_steps tr t (take j xs) s = Inr sj"
    and nf: "\<not> is_finite (fst (forward_loss tr (weights sj) (xs ! j) (hidden sj)))"
  shows "\<exists>s'. train_steps tr t xs s = Inr s' \<and> weights s' = weights s \<and> events s' = events s
           \<and> map fst (graph s') = map fst (graph s) @ xs
           \<and> non_finite_acc (total_loss s') \<and> weights sj = weights s"
proof -
  let ?n = "nat (optimize_per_n_step tr)"
  from train_steps_inside [OF T inside, of s]
  obtain s' where s': "train_steps tr t xs s = Inr s'" "weights s' = weights s"
    "events s' = events s" "map fst (graph s') = map fst (graph s) @ xs"
    by (elim exE conjE) (rule that)
  from inside j have "\<forall>i < length (take j xs). Suc (t + i) mod ?n \<noteq> 0" by simp
  from train_steps_inside [OF T this, of s] sj
  have wj: "weights sj = weights s" by auto
  from inside j have bj: "Suc (t + j) mod ?n \<noteq> 0" by simp
  from train_step_inside [OF T bj, of "xs ! j" sj]
  obtain s1 where s1: "train_step tr (t + j) (xs ! j) sj = Inr s1"
    "total_loss s1 = py_iadd (total_loss sj)
        (fp_div_int (fst (forward_loss tr (weights sj) (xs ! j) (hidden sj)))
           (optimize_per_n_step tr))"
    by (elim exE conjE) (rule that)
  from nf have nf1: "non_finite_acc (total_loss s1)"
    by (simp add: s1(2) py_iadd_non_finite fp_div_int_non_finite)
  have "\<forall>i < length (drop (Suc j) xs). Suc (Suc (t + j) + i) mod ?n \<noteq> 0"
  proof (intro allI impI)
    fix i assume "i < length (drop (Suc j) xs)"
    then have "Suc j + i < length xs" by simp
    with inside have "Suc (t + (Suc j + i)) mod ?n \<noteq> 0" by blast
    then show "Suc (Suc (t + j) + i) mod ?n \<noteq> 0" by (simp add: add.assoc)
  qed
  from train_steps_inside [OF T this, of s1]
  obtain s2 where s2: "train_steps tr (Suc (t + j)) (drop (Suc j) xs) s1 = Inr s2"
    "non_finite_acc (total_loss s1) \<longrightarrow> non_finite_acc (total_loss s2)"
    by (elim exE conjE) (rule that)
  from j have xs: "xs = take j xs @ xs ! j # drop (Suc j) xs"
    by (simp add: id_take_nth_drop)
  have "train_steps tr t (take j xs @ xs ! j # drop (Suc j) xs) s = Inr s2"
    using j sj s1(1) s2(1) by (simp add: train_steps_append min_def)
  with xs s'(1) have "s' = s2" by simp
  with s' s2 nf1 wj show ?thesis by simp
qed

lemma train_steps_boundary_state:
  assumes T: "0 < optimize_per_n_step tr"
    and s: "t mod nat (optimize_per_n_step tr) = 0 \<longrightarrow> isinstance_int (total_loss s) \<and> graph s = []"
    and r: "train_steps tr t xs s = Inr s'"
    and b: "(t + length xs) mod nat (optimize_per_n_step tr) = 0"
  shows "isinstance_int (total_loss s') \<and> graph s' = []"
  using s r b
proof (induction xs arbitrary: t s)
  case Nil
  then show ?case by simp
next
  case (Cons x xs)
  let ?n = "nat (optimize_per_n_step tr)"
  from Cons.prems(2) obtain s1 where s1: "train_step tr t x s = Inr s1"
    and r1: "train_steps tr (Suc t) xs s1 = Inr s'"
    by (auto split: sum.splits)
  have "Suc t mod ?n = 0 \<longrightarrow> isinstance_int (total_loss s1) \<and> graph s1 = []"
  proof
    assume "Suc t mod ?n = 0"
    from train_step_boundary [OF T this, of x s] s1 show "isinstance_int (total_loss s1) \<and> graph s1 = []"
      by auto
  qed
  from Cons.IH [OF this r1] Cons.prems(3) show ?case by simp
qed

lemma train_window_continues:
  assumes T: "0 < optimize_per_n_step tr"
    and sb: "train_steps tr 0 xs (s\<lparr>hidden := zeros tr, total_loss := PyInt 0, graph := []\<rparr>) = Inr sb"
    and b: "length xs mod nat (optimize_per_n_step tr) = 0"
    and i: "isinstance_int (total_loss sb)"
  shows "\<exists>s' rest. train_window tr (xs @ post) s = Inr s' \<and> events s' = events sb @ rest"
proof -
  let ?s0 = "s\<lparr>hidden := zeros tr, total_loss := PyInt 0, graph := []\<rparr>"
  from i b have "isinstance_int (total_loss sb) \<longleftrightarrow> length xs mod nat (optimize_per_n_step tr) = 0"
    by simp
  from train_steps_Inr [OF T this, of post]
  obtain s1 new where s1: "train_steps tr (length xs) post sb = Inr s1" "events s1 = events sb @ new"
    by (elim exE conjE) (rule that)
  with sb have r: "train_steps tr 0 (xs @ post) ?s0 = Inr s1"
    by (simp add: train_steps_append)
  show ?thesis
  proof (cases "total_loss s1")
    case (PyInt k)
    with r s1 show ?thesis by (simp add: train_window_def)
  next
    case (Tensor v)
    with r s1 show ?thesis by (simp add: train_window_def optimizer_update_def)
  qed
qed

lemma inside_after_boundary:
  assumes "a mod n = 0" and "m < n"
  shows "\<forall>i < m. Suc (a + i) mod n \<noteq> (0::nat)"
proof (intro allI impI)
  fix i assume "i < m"
  with assms have "Suc i < n \<or> Suc i = n" by auto
  have "Suc (a + i) mod n = (a mod n + Suc i mod n) mod n"
    by (metis add_Suc_right mod_add_eq)
  also have "\<dots> = Suc i mod n" using assms(1) by simp
  also have "\<dots> = Suc i" using \<open>i < m\<close> assms(2) by simp
  finally show "Suc (a + i) mod n \<noteq> 0" by simp
qed

text \<open>
  Claim C5, as amended. The training loop has no test of the loss. If the loss computed at
  a step is non-finite, the optimizer step of the truncation segment that holds the step
  is taken all the same: the accumulated loss, which is then non-finite, is backpropagated,
  the update and the scheduler step are applied to the weights that computed the loss, and
  the loop goes on with the rest of the window. The window is \<open>pre @ seg @ post\<close>, where
  \<open>pre\<close> is made of whole segments and \<open>seg\<close> is one segment, a whole one or the last,
  shorter one.
\<close>

theorem non_finite_loss_segment_is_applied:
  assumes T: "0 < optimize_per_n_step tr"
    and pre: "length pre mod nat (optimize_per_n_step tr) = 0"
    and seg: "seg \<noteq> []" "length seg \<le> nat (optimize_per_n_step tr)"
    and last: "length seg = nat (optimize_per_n_step tr) \<or> post = []"
    and j: "j < length seg"
    and sj: "train_steps tr 0 (pre @ take j seg)
               (s\<lparr>hidden := zeros tr, total_loss := PyInt 0, graph := []\<rparr>) = Inr sj"
    and nf: "\<not> is_finite (fst (forward_loss tr (weights sj) (seg ! j) (hidden sj)))"
  shows "\<exists>sb v g E s' rest.
           train_window tr (pre @ seg) s = Inr sb
         \<and> events sb = events s @ E @ [ZeroGrad, Backward v, OptimizerStep, LrSchedulerStep]
         \<and> \<not> is_finite v
         \<and> weights sb = lr_step tr (backward_step tr (weights sj) g)
         \<and> map fst g = seg
         \<and> train_window tr (pre @ seg @ post) s = Inr s'
         \<and> events s' = events sb @ rest"
proof -
  let ?n = "nat (optimize_per_n_step tr)"
  let ?s0 = "s\<lparr>hidden := zeros tr, total_loss := PyInt 0, graph := []\<rparr>"
  have i0: "isinstance_int (total_loss ?s0) \<longleftrightarrow> 0 mod ?n = 0" by simp
  from train_steps_Inr [OF T i0, of pre]
  obtain sa E0 where sa: "train_steps tr 0 pre ?s0 = Inr sa" "events sa = events ?s0 @ E0"
    by (elim exE conjE) (rule that)
  have "0 mod ?n = 0 \<longrightarrow> isinstance_int (total_loss ?s0) \<and> graph ?s0 = []" by simp
  from train_steps_boundary_state [OF T this sa(1)] pre
  have ga: "isinstance_int (total_loss sa)" "graph sa = []" by simp_all
  from sj sa(1) have sj': "train_steps tr (length pre) (take j seg) sa = Inr sj"
    by (simp add: train_steps_append)
  show ?thesis
  proof (cases "length seg = ?n")
    case False
    with seg last have short: "length seg < ?n" and post: "post = []" by auto
    from inside_after_boundary [OF pre short]
    have inside: "\<forall>i < length seg. Suc (length pre + i) mod ?n \<noteq> 0" .
    from train_steps_inside_non_finite [OF T inside j sj' nf]
    obtain se where se: "train_steps tr (length pre) seg sa = Inr se" "weights se = weights sa"
      "events se = events sa" "map fst (graph se) = map fst (graph sa) @ seg"
      "non_finite_acc (total_loss se)" "weights sj = weights sa"
      by (elim exE conjE) (rule that)
    from se(5) obtain v where v: "total_loss se = Tensor v" "\<not> is_finite v"
      by (cases "total_loss se") (auto simp: non_finite_acc_def)
    let ?sb = "se\<lparr>weights := lr_step tr (backward_step tr (weights se) (graph se)),
                 events := events se @ [ZeroGrad, Backward v, OptimizerStep, LrSchedulerStep]\<rparr>"
    from sa(1) se(1) have "train_steps tr 0 (pre @ seg) ?s0 = Inr se"
      by (simp add: train_steps_append)
    with v have w: "train_window tr (pre @ seg) s = Inr ?sb"
      by (simp add: train_window_def optimizer_update_def)
    have "events ?sb = events s @ E0 @ [ZeroGrad, Backward v, OptimizerStep, LrSchedulerStep]"
      using se(3) sa(2) by simp
    moreover have "weights ?sb = lr_step tr (backward_step tr (weights sj) (graph se))"
      using se(2,6) by simp
    moreover have "map fst (graph se) = seg" using se(4) ga(2) by simp
    moreover have "train_window tr (pre @ seg @ post) s = Inr ?sb \<and> events ?sb = events ?sb @ []"
      using w post by simp
    ultimately show ?thesis using w v(2) by blast
  next
    case True
    from seg(1) obtain init x where sx: "seg = init @ [x]"
      by (cases seg rule: rev_cases) auto
    with True have li: "length init < ?n" and ln: "Suc (length init) = ?n" by simp_all
    from inside_after_boundary [OF pre li]
    have inside: "\<forall>i < length init. Suc (length pre + i) mod ?n \<noteq> 0" .
    have bnd: "Suc (length pre + length init) mod ?n = 0"
      using pre ln by (metis add_Suc_right mod_add_self2 )
    have "\<exists>sm. train_steps tr (length pre) init sa = Inr sm \<and> weights sm = weights sa
            \<and> events sm = events sa \<and> map fst (graph sm) = init \<and> weights sj = weights sa
            \<and> (non_finite_acc (total_loss sm)
                 \<or> \<not> is_finite (fst (forward_loss tr (weights sm) x (hidden sm))))"
    proof (cases "j < length init")
      case True
      with sj' sx have sj'': "train_steps tr (length pre) (take j init) sa = Inr sj" by simp
      from nf sx True
      have nf': "\<not> is_finite (fst (forward_loss tr (weights sj) (init ! j) (hidden sj)))"
        by (simp add: nth_append)
      from train_steps_inside_non_finite [OF T inside True sj'' nf'] ga(2)
      show ?thesis by auto
    next
      case False
      with j sx have jl: "j = length init" by simp
      with sj' sx have sm: "train_steps tr (length pre) init sa = Inr sj" by simp
      from train_steps_inside [OF T inside, of sa] sm ga(2)
      have "weights sj = weights sa" "events sj = events sa" "map fst (graph sj) = init"
        by auto
      moreover from nf sx jl
      have "\<not> is_finite (fst (forward_loss tr (weights sj) x (hidden sj)))" by simp
      ultimately show ?thesis using sm by blast
    qed
    then obtain sm where sm: "train_steps tr (length pre) init sa = Inr sm"
      "weights sm = weights sa" "events sm = events sa" "map fst (graph sm) = init"
      "weights sj = weights sa"
      "non_finite_acc (total_loss sm)
         \<or> \<not> is_finite (fst (forward_loss tr (weights sm) x (hidden sm)))"
      by (elim exE conjE) (rule that)
    from train_step_boundary [OF T bnd, of x sm]
    obtain sb v where sb: "train_step tr (length pre + length init) x sm = Inr sb"
      "py_iadd (total_loss sm)
         (fp_div_int (fst (forward_loss tr (weights sm) x (hidden sm)))
            (optimize_per_n_step tr)) = Tensor v"
      "events sb = events sm @ [Detach, ZeroGrad, Backward v, OptimizerStep, LrSchedulerStep]"
      "weights sb = lr_step tr (backward_step tr (weights sm) (graph sm @ [(x, hidden sm)]))"
      "total_loss sb = PyInt 0" "graph sb = []"
      by (elim exE conjE) (rule that)
    from sm(6) have "non_finite_acc (py_iadd (total_loss sm)
         (fp_div_int (fst (forward_loss tr (weights sm) x (hidden sm)))
            (optimize_per_n_step tr)))"
      by (intro py_iadd_non_finite) (auto simp: fp_div_int_non_finite)
    with sb(2) have v: "\<not> is_finite v" by (simp add: non_finite_acc_def)
    from sa(1) sm(1) sb(1) sx
    have run: "train_steps tr 0 (pre @ seg) ?s0 = Inr sb"
      by (simp add: train_steps_append)
    with sb(5) have w: "train_window tr (pre @ seg) s = Inr sb"
      by (simp add: train_window_def)
    have ev: "events sb = events s @ (E0 @ [Detach]) @ [ZeroGrad, Backward v, OptimizerStep, LrSchedulerStep]"
      using sb(3) sm(3) sa(2) by simp
    have wt: "weights sb = lr_step tr (backward_step tr (weights sj) (graph sm @ [(x, hidden sm)]))"
      using sb(4) sm(2,5) by simp
    have g: "map fst (graph sm @ [(x, hidden sm)]) = seg"
      using sm(4) sx by simp
    have "length (pre @ seg) mod ?n = 0"
      using bnd sx by simp
    from train_window_continues [OF T run this, of post] sb(5)
    obtain s' rest where "train_window tr ((pre @ seg) @ post) s = Inr s'" "events s' = events sb @ rest"
      by auto
    then have "train_window tr (pre @ seg @ post) s = Inr s' \<and> events s' = events sb @ rest"
      by simp
    with w ev v wt g show ?thesis by blast
  qed
qed

theorem non_finite_loss_segment_is_applied_witness:
  "(0::int) < optimize_per_n_step (replay_trainer 3)
   \<and> length [Fin 1, Fin 1, Fin 1] mod nat (optimize_per_n_step (replay_trainer 3)) = 0
   \<and> [Fin 1, NaN, Fin 1] \<noteq> []
   \<and> length [Fin 1, NaN, Fin 1] \<le> nat (optimize_per_n_step (replay_trainer 3))
   \<and> (1::nat) < length [Fin 1, NaN, Fin 1]
   \<and> train_steps (replay_trainer 3) 0 ([Fin 1, Fin 1, Fin 1] @ take 1 [Fin 1, NaN, Fin 1])
        (fresh_state\<lparr>hidden := zeros (replay_trainer 3), total_loss := PyInt 0, graph := []\<rparr>)
      = Inr \<lparr>weights = 1, hidden = (), total_loss = Tensor (Fin (1 / 3)),
             graph = [(Fin 1, ())], num_steps = 4,
             events = [Detach, ZeroGrad, Backward (Fin 1), OptimizerStep, LrSchedulerStep]\<rparr>
   \<and> \<not> is_finite (fst (forward_loss (replay_trainer 3) (1::nat) ([Fin 1, NaN, Fin 1] ! 1) ()))
   \<and> (\<exists>sb v g E s' rest.
         train_window (replay_trainer 3) ([Fin 1, Fin 1, Fin 1] @ [Fin 1, NaN, Fin 1]) fresh_state
           = Inr sb
       \<and> events sb = events fresh_state @ E @ [ZeroGrad, Backward v, OptimizerStep, LrSchedulerStep]
       \<and> \<not> is_finite v
       \<and> weights sb = lr_step (replay_trainer 3) (backward_step (replay_trainer 3) 1 g)
       \<and> map fst g = [Fin 1, NaN, Fin 1]
       \<and> train_window (replay_trainer 3)
            ([Fin 1, Fin 1, Fin 1] @ [Fin 1, NaN, Fin 1] @ [Fin 1]) fresh_state = Inr s'
       \<and> events s' = events sb @ rest)"
proof -
  let ?sj = "\<lparr>weights = 1::nat, hidden = (), total_loss = Tensor (Fin (1 / 3)),
             graph = [(Fin 1, ())], num_steps = 4,
             events = [Detach, ZeroGrad, Backward (Fin 1), OptimizerStep, LrSchedulerStep]\<rparr>"
  have h1: "(0::int) < optimize_per_n_step (replay_trainer 3)"
    by (simp add: replay_trainer_def)
  have h2: "length [Fin 1, Fin 1, Fin 1] mod nat (optimize_per_n_step (replay_trainer 3)) = 0"
    by (simp add: replay_trainer_def)
  have h3: "[Fin 1, NaN, Fin 1] \<noteq> []" by simp
  have h4: "length [Fin 1, NaN, Fin 1] \<le> nat (optimize_per_n_step (replay_trainer 3))"
    by (simp add: replay_trainer_def)
  have h5: "length [Fin 1, NaN, Fin 1] = nat (optimize_per_n_step (replay_trainer 3))
             \<or> [Fin 1] = []"
    by (simp add: replay_trainer_def)
  have h6: "(1::nat) < length [Fin 1, NaN, Fin 1]" by simp
  have h7: "train_steps (replay_trainer 3) 0 ([Fin 1, Fin 1, Fin 1] @ take 1 [Fin 1, NaN, Fin 1])
        (fresh_state\<lparr>hidden := zeros (replay_trainer 3), total_loss := PyInt 0, graph := []\<rparr>)
      = Inr ?sj"
    by (simp add: train_step_def optimizer_update_def replay_trainer_def fresh_state_def Let_def)
  have h8: "\<not> is_finite (fst (forward_loss (replay_trainer 3) (weights ?sj)
              ([Fin 1, NaN, Fin 1] ! 1) (hidden ?sj)))"
    by (simp add: replay_trainer_def)
  from non_finite_loss_segment_is_applied [OF h1 h2 h3 h4 h5 h6 h7 h8]
  have "\<exists>sb v g E s' rest.
         train_window (replay_trainer 3) ([Fin 1, Fin 1, Fin 1] @ [Fin 1, NaN, Fin 1]) fresh_state
           = Inr sb
       \<and> events sb = events fresh_state @ E @ [ZeroGrad, Backward v, OptimizerStep, LrSchedulerStep]
       \<and> \<not> is_finite v
       \<and> weights sb = lr_step (replay_trainer 3) (backward_step (replay_trainer 3) 1 g)
       \<and> map fst g = [Fin 1, NaN, Fin 1]
       \<and> train_window (replay_trainer 3)
            ([Fin 1, Fin 1, Fin 1] @ [Fin 1, NaN, Fin 1] @ [Fin 1]) fresh_state = Inr s'
       \<and> events s' = events sb @ rest"
    by simp
  moreover from h8 have "\<not> is_finite (fst (forward_loss (replay_trainer 3) (1::nat)
       ([Fin 1, NaN, Fin 1] ! 1) ()))" by simp
  ultimately show ?thesis using h1 h2 h3 h4 h6 h7 by blast
qed

subsection \<open>The validation loop\<close>

lemma seq_stmt_continue: "seq_stmt continue_stmt b s = (Continue, s)"
  by (simp add: seq_stmt_def continue_stmt_def)

lemma seq_stmt_preserves:
  assumes "\<And>s. P s \<Longrightarrow> P (snd (a s))" and "\<And>s. P s \<Longrightarrow> P (snd (b s))" and "P s"
  shows "P (snd (seq_stmt a b s))"
proof (cases "a s")
  case (Pair f s')
  with assms(1) [OF assms(3)] have "P s'" by simp
  with Pair assms(2) [of s'] show ?thesis
    by (cases f) (simp_all add: seq_stmt_def)
qed

lemma for_stmt_preserves:
  assumes "\<And>x s. P s \<Longrightarrow> P (snd (body x s))" and "P s"
  shows "P (snd (for_stmt body xs s))"
  using assms(2)
proof (induction xs arbitrary: s)
  case Nil
  then show ?case by simp
next
  case (Cons x xs)
  obtain f s' where b: "body x s = (f, s')" by (cases "body x s")
  with assms(1) [OF Cons.prems, of x] have "P s'" by simp
  from Cons.IH [OF this] b show ?case
    using \<open>P s'\<close> by (cases f) simp_all
qed

lemma optimizer_update_no_validation:
  "optimizer_update tr s = Inr s' \<Longrightarrow> no_validation s \<Longrightarrow> no_validation s'"
  by (auto simp: optimizer_update_def no_validation_def split: py_loss.splits)

lemma train_step_no_validation:
  assumes "train_step tr t x s = Inr s'" and "no_validation s"
  shows "no_validation s'"
proof -
  obtain l h where f: "forward_loss tr (weights s) x (hidden s) = (l, h)"
    by (cases "forward_loss tr (weights s) x (hidden s)")
  from assms show ?thesis
    by (auto simp: train_step_def Let_def f optimizer_update_def no_validation_def
             split: if_splits py_loss.splits sum.splits)
qed

lemma train_steps_no_validation:
  "train_steps tr t xs s = Inr s' \<Longrightarrow> no_validation s \<Longrightarrow> no_validation s'"
proof (induction xs arbitrary: t s)
  case Nil
  then show ?case by simp
next
  case (Cons x xs)
  then show ?case
    by (auto split: sum.splits dest: train_step_no_validation)
qed

lemma train_window_no_validation:
  assumes "train_window tr seq s = Inr s'" and "no_validation s"
  shows "no_validation s'"
proof -
  let ?s0 = "s\<lparr>hidden := zeros tr, total_loss := PyInt 0, graph := []\<rparr>"
  from assms(2) have n0: "no_validation ?s0" by (simp add: no_validation_def)
  from assms(1) obtain s1 where s1: "train_steps tr 0 seq ?s0 = Inr s1"
    by (auto simp: train_window_def split: sum.splits)
  from train_steps_no_validation [OF s1 n0] have n1: "no_validation s1" .
  from assms(1) s1 have "s' = s1 \<or> optimizer_update tr s1 = Inr s'"
    by (auto simp: train_window_def split: if_splits)
  with n1 show ?thesis by (auto dest: optimizer_update_no_validation)
qed

lemma train_batch_no_validation:
  assumes "no_validation s"
  shows "no_validation (snd (train_batch tr seq s))"
  using assms
  by (cases "train_window tr seq s")
     (auto simp: train_batch_def dest: train_window_no_validation)

lemma call_stmt_no_validation:
  "e \<noteq> ValidationStep \<Longrightarrow> no_validation s \<Longrightarrow> no_validation (snd (call_stmt e s))"
  by (simp add: call_stmt_def no_validation_def)

lemma epoch_body_no_validation:
  assumes "no_validation s"
  shows "no_validation (snd (epoch_body tr train_dataloader val_dataloader epoch s))"
  unfolding epoch_body_def
proof (intro seq_stmt_preserves [where P = no_validation] assms)
  fix s :: "('a, 'b, 'c) train_state"
  assume s: "no_validation s"
  show "no_validation (snd (call_stmt (SetEpoch epoch) s))"
    using s by (simp add: call_stmt_no_validation)
  show "no_validation (snd (for_stmt (train_batch tr) (train_dataloader epoch) s))"
    using s by (intro for_stmt_preserves [where P = no_validation] train_batch_no_validation)
  show "no_validation (snd (if_stmt ((epoch + 1) mod 10 = 0)
          (seq_stmt (call_stmt (Print ''skipping val...''))
             (seq_stmt continue_stmt (for_stmt (\<lambda>data. call_stmt ValidationStep) val_dataloader))) s))"
  proof (cases "(epoch + 1) mod 10 = 0")
    case True
    have "no_validation (snd (seq_stmt (call_stmt (Print ''skipping val...''))
             (seq_stmt continue_stmt (for_stmt (\<lambda>data. call_stmt ValidationStep) val_dataloader)) s))"
      using s
      by (rule seq_stmt_preserves [where P = no_validation, rotated 2])
         (simp_all add: call_stmt_no_validation seq_stmt_continue)
    with True show ?thesis by (simp add: if_stmt_def)
  next
    case False
    with s show ?thesis by (simp add: if_stmt_def)
  qed
qed

text \<open>
  Claim C9. In every run of the training loop, whatever the number of epochs, the batches
  and the collaborators, \<^verbatim>\<open>validation_step\<close> is never called: where the guard of line 185
  holds, the \<^verbatim>\<open>continue\<close> of line 187 ends the epoch before the validation loop, and where it
  does not hold the block is skipped.
\<close>

theorem validation_never_runs:
  "ValidationStep \<notin> set (events (snd (main_loop tr epochs train_dataloader val_dataloader w0)))"
proof -
  let ?s0 = "\<lparr>weights = w0, hidden = zeros tr, total_loss = PyInt 0, graph = [],
        num_steps = 0, events = []\<rparr> :: ('a, 'b, 'c) train_state"
  have "no_validation ?s0" by (simp add: no_validation_def)
  then have "no_validation (snd (main_loop tr epochs train_dataloader val_dataloader w0))"
    unfolding main_loop_def
    by (intro seq_stmt_preserves [where P = no_validation] for_stmt_preserves [where P = no_validation]
          epoch_body_no_validation call_stmt_no_validation) simp_all
  then show ?thesis by (simp add: no_validation_def)
qed

lemma epoch_body_guard_fires:
  assumes "(epoch + 1) mod 10 = 0"
    and "for_stmt (train_batch tr) (train_dataloader epoch)
           (snd (call_stmt (SetEpoch epoch) s)) = (Fallthrough, s1)"
  shows "epoch_body tr train_dataloader val_dataloader epoch s
         = (Continue, s1\<lparr>events := events s1 @ [Print ''skipping val...'']\<rparr>)"
  using assms
  by (simp add: epoch_body_def seq_stmt_def call_stmt_def if_stmt_def continue_stmt_def)

end
